theory Spec2Isabelle
  imports Main "HOL-Library.Multiset" "HOL-Library.Sublist"
begin

section \<open>JavaScript strings\<close>

text \<open>
  A string of the script is a list of characters. Isabelle's \<^typ>\<open>char\<close> has 8 bits, so the
  model covers text whose code units lie in the Latin-1 range; \<open>toLowerCase\<close> maps the
  upper-case letters of that range (\<open>A\<close>-\<open>Z\<close> and \<open>0xC0\<close>-\<open>0xDE\<close> without \<open>0xD7\<close>) to their
  lower-case letters and leaves every other character alone.
\<close>

definition upper_chars :: "char list" where
  "upper_chars = ''ABCDEFGHIJKLMNOPQRSTUVWXYZ'' @
     [CHR 0xC0, CHR 0xC1, CHR 0xC2, CHR 0xC3, CHR 0xC4, CHR 0xC5, CHR 0xC6, CHR 0xC7,
      CHR 0xC8, CHR 0xC9, CHR 0xCA, CHR 0xCB, CHR 0xCC, CHR 0xCD, CHR 0xCE, CHR 0xCF,
      CHR 0xD0, CHR 0xD1, CHR 0xD2, CHR 0xD3, CHR 0xD4, CHR 0xD5, CHR 0xD6, CHR 0xD8,
      CHR 0xD9, CHR 0xDA, CHR 0xDB, CHR 0xDC, CHR 0xDD, CHR 0xDE]"

definition lower_chars :: "char list" where
  "lower_chars = ''abcdefghijklmnopqrstuvwxyz'' @
     [CHR 0xE0, CHR 0xE1, CHR 0xE2, CHR 0xE3, CHR 0xE4, CHR 0xE5, CHR 0xE6, CHR 0xE7,
      CHR 0xE8, CHR 0xE9, CHR 0xEA, CHR 0xEB, CHR 0xEC, CHR 0xED, CHR 0xEE, CHR 0xEF,
      CHR 0xF0, CHR 0xF1, CHR 0xF2, CHR 0xF3, CHR 0xF4, CHR 0xF5, CHR 0xF6, CHR 0xF8,
      CHR 0xF9, CHR 0xFA, CHR 0xFB, CHR 0xFC, CHR 0xFD, CHR 0xFE]"

definition toLowerCase_char :: "char \<Rightarrow> char" where
  "toLowerCase_char c =
     (case map_of (zip upper_chars lower_chars) c of Some l \<Rightarrow> l | None \<Rightarrow> c)"

definition toLowerCase :: "string \<Rightarrow> string" where
  "toLowerCase s = map toLowerCase_char s"

text \<open>\<open>s.includes(pat)\<close>: \<open>pat\<close> occurs in \<open>s\<close> as a contiguous run.\<close>

fun js_includes :: "string \<Rightarrow> string \<Rightarrow> bool" where
  "js_includes [] pat = (pat = [])"
| "js_includes (c # cs) pat = (prefix pat (c # cs) \<or> js_includes cs pat)"

text \<open>\<open>s || d\<close> on a string: the empty string is falsy.\<close>

definition js_or :: "string \<Rightarrow> string \<Rightarrow> string" where
  "js_or s d = (if s = [] then d else s)"

text \<open>\<open>x || d\<close> where \<open>x\<close> is a string or \<open>undefined\<close> (\<open>None\<close>).\<close>

definition opt_or :: "string option \<Rightarrow> string \<Rightarrow> string" where
  "opt_or x d = (case x of None \<Rightarrow> d | Some s \<Rightarrow> js_or s d)"

section \<open>Objects used as dictionaries\<close>

text \<open>
  The reducers of the script start from the literal \<open>{}\<close> and index it with ticket text.
  Such an object is modelled by the list of its own properties in insertion order,
  together with the property names every object literal inherits from
  \<open>Object.prototype\<close>. Reading an inherited name yields a built-in function (or, for
  \<open>__proto__\<close>, the prototype object): a truthy value that is neither a bucket nor an
  array. \<open>Object.entries\<close> and \<open>Object.keys\<close> enumerate the own keys that are array indices
  first, in ascending numeric order, and then the other keys in insertion order
  (\<open>object_entries\<close> below).
\<close>

definition object_prototype_keys :: "string list" where
  "object_prototype_keys =
     [''constructor'', ''__proto__'', ''hasOwnProperty'', ''isPrototypeOf'',
      ''propertyIsEnumerable'', ''toLocaleString'', ''toString'', ''valueOf'',
      ''__defineGetter__'', ''__defineSetter__'', ''__lookupGetter__'',
      ''__lookupSetter__'']"

datatype 'v js_prop = Own 'v | Inherited | Absent

definition js_get :: "(string \<times> 'v) list \<Rightarrow> string \<Rightarrow> 'v js_prop" where
  "js_get obj k =
     (case map_of obj k of
        Some v \<Rightarrow> Own v
      | None \<Rightarrow> if k \<in> set object_prototype_keys then Inherited else Absent)"

text \<open>\<open>obj[k] = v\<close>: an own property keeps its place, a new one goes last.\<close>

fun js_set :: "(string \<times> 'v) list \<Rightarrow> string \<Rightarrow> 'v \<Rightarrow> (string \<times> 'v) list" where
  "js_set [] k v = [(k, v)]"
| "js_set ((k', v') # kvs) k v =
     (if k' = k then (k', v) # kvs else (k', v') # js_set kvs k v)"

text \<open>
  An array index is the decimal numeral, without leading zeros, of a number up to
  \<open>2^32 - 2\<close>.
\<close>

definition digit_value :: "char \<Rightarrow> nat" where
  "digit_value c =
     (case map_of (zip ''0123456789'' [0, 1, 2, 3, 4, 5, 6, 7, 8, 9]) c of
        Some d \<Rightarrow> d
      | None \<Rightarrow> 0)"

definition decimal_value :: "string \<Rightarrow> nat" where
  "decimal_value s = foldl (\<lambda>n c. 10 * n + digit_value c) 0 s"

definition is_array_index :: "string \<Rightarrow> bool" where
  "is_array_index s =
     (s \<noteq> [] \<and> list_all (\<lambda>c. c \<in> set ''0123456789'') s \<and>
      (s = ''0'' \<or> hd s \<noteq> CHR ''0'') \<and> decimal_value s \<le> 4294967294)"

definition object_entries :: "(string \<times> 'v) list \<Rightarrow> (string \<times> 'v) list" where
  "object_entries obj =
     sort_key (\<lambda>kv. decimal_value (fst kv)) (filter (\<lambda>kv. is_array_index (fst kv)) obj) @
     filter (\<lambda>kv. \<not> is_array_index (fst kv)) obj"

text \<open>
  What stops a run of the model. \<open>TypeError\<close> is the exception the engine throws when a
  method is called on \<open>undefined\<close> or a non-function is called. \<open>BuiltinObjectUse\<close> marks a
  run that goes on to read and write properties of a built-in object reached through the
  prototype chain; what happens from there depends on that object and is not modelled.
  \<open>HttpError\<close> and \<open>NetworkError\<close> are the two ways the fetch fails.
\<close>

datatype js_error = TypeError | BuiltinObjectUse | HttpError nat string | NetworkError string

text \<open>\<open>xs.reduce(f, acc)\<close> with a callback that may throw.\<close>

fun reduce :: "('a \<Rightarrow> 'b \<Rightarrow> js_error + 'a) \<Rightarrow> 'b list \<Rightarrow> 'a \<Rightarrow> js_error + 'a" where
  "reduce f [] acc = Inr acc"
| "reduce f (x # xs) acc =
     (case f acc x of Inl e \<Rightarrow> Inl e | Inr acc' \<Rightarrow> reduce f xs acc')"

section \<open>Tickets and comments\<close>

text \<open>
  The ticket object built by \<open>parseJiraXML\<close>. \<open>parentKey\<close> is \<open>undefined\<close> (\<open>None\<close>) when the
  item has no parent; \<open>sprint\<close> exists only in the sprint variant of the script and is
  \<open>None\<close> elsewhere. The fields \<open>id\<close> and \<open>type\<close> carry a prime.
\<close>

record comment =
  comment_id :: "string option"
  author :: string
  comment_created :: "string option"
  body :: string

record ticket =
  id' :: string
  key :: string
  summary :: string
  description :: string
  type' :: string
  status :: string
  assignee :: string
  priority :: string
  updated :: string
  created :: string
  parentKey :: "string option"
  link :: string
  comments :: "comment list"
  sprint :: "string option"

section \<open>Grouper\<close>

record bucket =
  userStories :: "ticket list"
  tasks :: "ticket list"
  raw :: "ticket list"

definition empty_bucket :: bucket where
  "empty_bucket = \<lparr>userStories = [], tasks = [], raw = []\<rparr>"

text \<open>\<open>(t.type || '').toLowerCase().includes('story')\<close>\<close>

definition is_story :: "ticket \<Rightarrow> bool" where
  "is_story t = js_includes (toLowerCase (js_or (type' t) [])) ''story''"

text \<open>\<open>t.assignee || 'Unassigned'\<close>\<close>

definition assignee_of :: "ticket \<Rightarrow> string" where
  "assignee_of t = js_or (assignee t) ''Unassigned''"

text \<open>\<open>t.sprint || 'No Sprint'\<close>\<close>

definition sprint_of :: "ticket \<Rightarrow> string" where
  "sprint_of t = opt_or (sprint t) ''No Sprint''"

text \<open>The three pushes of the refactored reducers: \<open>raw\<close>, then \<open>userStories\<close> or \<open>tasks\<close>.\<close>

definition push_ticket :: "ticket \<Rightarrow> bucket \<Rightarrow> bucket" where
  "push_ticket t b =
     (let b1 = b\<lparr>raw := raw b @ [t]\<rparr>
      in if is_story t then b1\<lparr>userStories := userStories b1 @ [t]\<rparr>
         else b1\<lparr>tasks := tasks b1 @ [t]\<rparr>)"

text \<open>
  One step of \<open>groupTicketsByAssignee\<close> (refactored variant). When \<open>acc[assignee]\<close> is an
  inherited property it is truthy, no bucket is created, \<open>acc[assignee].raw\<close> is
  \<open>undefined\<close> and \<open>.push\<close> throws.
\<close>

definition groupTicketsByAssignee_step ::
  "(string \<times> bucket) list \<Rightarrow> ticket \<Rightarrow> js_error + (string \<times> bucket) list" where
  "groupTicketsByAssignee_step acc t =
     (let a = assignee_of t
      in case js_get acc a of
           Inherited \<Rightarrow> Inl TypeError
         | Absent \<Rightarrow> Inr (js_set acc a (push_ticket t empty_bucket))
         | Own b \<Rightarrow> Inr (js_set acc a (push_ticket t b)))"

definition groupTicketsByAssignee :: "ticket list \<Rightarrow> js_error + (string \<times> bucket) list" where
  "groupTicketsByAssignee tickets = reduce groupTicketsByAssignee_step tickets []"

text \<open>
  The first variant of the script (\<open>jira-dashboard.js\<close>, line 132) indexes with
  \<open>ticket.assignee\<close> as it is and its buckets have no \<open>raw\<close> list (left empty here).
\<close>

definition push_ticket_v1 :: "ticket \<Rightarrow> bucket \<Rightarrow> bucket" where
  "push_ticket_v1 t b =
     (if js_includes (toLowerCase (type' t)) ''story''
      then b\<lparr>userStories := userStories b @ [t]\<rparr>
      else b\<lparr>tasks := tasks b @ [t]\<rparr>)"

definition groupTicketsByAssignee_v1_step ::
  "(string \<times> bucket) list \<Rightarrow> ticket \<Rightarrow> js_error + (string \<times> bucket) list" where
  "groupTicketsByAssignee_v1_step acc t =
     (case js_get acc (assignee t) of
        Inherited \<Rightarrow> Inl TypeError
      | Absent \<Rightarrow> Inr (js_set acc (assignee t) (push_ticket_v1 t empty_bucket))
      | Own b \<Rightarrow> Inr (js_set acc (assignee t) (push_ticket_v1 t b)))"

definition groupTicketsByAssignee_v1 :: "ticket list \<Rightarrow> js_error + (string \<times> bucket) list" where
  "groupTicketsByAssignee_v1 tickets = reduce groupTicketsByAssignee_v1_step tickets []"

text \<open>
  One step of \<open>groupTicketsBySprintAndAssignee\<close>. A sprint named like an inherited
  property makes \<open>acc[sprint]\<close> a built-in object, and the step goes on to use that object
  as the assignee dictionary: the bucket is written onto the built-in object and the
  ticket enters no sprint of \<open>acc\<close> (or the push throws, when the built-in object has a
  property named like the assignee), and the built-in object stays changed for every
  later lookup. The model does not follow the built-in objects: it stops there with
  \<open>BuiltinObjectUse\<close>, and the properties of this reducer below are stated only for ticket
  lists without such a sprint.
\<close>

definition sprint_bucket_step ::
  "(string \<times> bucket) list \<Rightarrow> ticket \<Rightarrow> js_error + (string \<times> bucket) list" where
  "sprint_bucket_step m t =
     (let a = assignee_of t
      in case js_get m a of
           Inherited \<Rightarrow> Inl TypeError
         | Absent \<Rightarrow> Inr (js_set m a (push_ticket t empty_bucket))
         | Own b \<Rightarrow> Inr (js_set m a (push_ticket t b)))"

definition groupTicketsBySprintAndAssignee_step ::
  "(string \<times> (string \<times> bucket) list) list \<Rightarrow> ticket
     \<Rightarrow> js_error + (string \<times> (string \<times> bucket) list) list" where
  "groupTicketsBySprintAndAssignee_step acc t =
     (let s = sprint_of t
      in case js_get acc s of
           Inherited \<Rightarrow> Inl BuiltinObjectUse
         | Absent \<Rightarrow>
             (case sprint_bucket_step [] t of
                Inl e \<Rightarrow> Inl e | Inr m' \<Rightarrow> Inr (js_set acc s m'))
         | Own m \<Rightarrow>
             (case sprint_bucket_step m t of
                Inl e \<Rightarrow> Inl e | Inr m' \<Rightarrow> Inr (js_set acc s m')))"

definition groupTicketsBySprintAndAssignee ::
  "ticket list \<Rightarrow> js_error + (string \<times> (string \<times> bucket) list) list" where
  "groupTicketsBySprintAndAssignee tickets =
     reduce groupTicketsBySprintAndAssignee_step tickets []"

text \<open>The tickets a grouping holds, bucket after bucket: stories, then tasks.\<close>

definition bucket_tickets :: "bucket \<Rightarrow> ticket list" where
  "bucket_tickets b = userStories b @ tasks b"

definition grouped_tickets :: "(string \<times> bucket) list \<Rightarrow> ticket list" where
  "grouped_tickets g = concat (map (\<lambda>kb. bucket_tickets (snd kb)) g)"

definition sprint_grouped_tickets :: "(string \<times> (string \<times> bucket) list) list \<Rightarrow> ticket list" where
  "sprint_grouped_tickets g = concat (map (\<lambda>km. grouped_tickets (snd km)) g)"

section \<open>Renderer: tasks by parent, cards and stats\<close>

text \<open>
  The reducer inside \<open>renderDashboard\<close>: \<open>parent = t.parentKey || 'standalone'\<close>, then
  \<open>if (!acc[parent]) acc[parent] = []; acc[parent].push(t)\<close>. An inherited property is
  truthy and has no \<open>push\<close>, so the call throws.
\<close>

definition parent_of :: "ticket \<Rightarrow> string" where
  "parent_of t = opt_or (parentKey t) ''standalone''"

definition tasksByParent_step ::
  "(string \<times> ticket list) list \<Rightarrow> ticket \<Rightarrow> js_error + (string \<times> ticket list) list" where
  "tasksByParent_step acc t =
     (let parent = parent_of t
      in case js_get acc parent of
           Inherited \<Rightarrow> Inl TypeError
         | Absent \<Rightarrow> Inr (js_set acc parent [t])
         | Own ts \<Rightarrow> Inr (js_set acc parent (ts @ [t])))"

definition tasksByParent :: "bucket \<Rightarrow> js_error + (string \<times> ticket list) list" where
  "tasksByParent b = reduce tasksByParent_step (tasks b) []"

text \<open>
  \<open>tasksByParent[story.key]\<close> guards the "Related Tasks" block of a story and is then
  iterated; \<open>tasksByParent.standalone\<close> guards the "Standalone Tasks" block.
\<close>

definition related_tasks ::
  "(string \<times> ticket list) list \<Rightarrow> ticket \<Rightarrow> js_error + ticket list option" where
  "related_tasks tbp story =
     (case js_get tbp (key story) of
        Inherited \<Rightarrow> Inl TypeError
      | Absent \<Rightarrow> Inr None
      | Own ts \<Rightarrow> Inr (Some ts))"

definition standalone_tasks :: "(string \<times> ticket list) list \<Rightarrow> ticket list option" where
  "standalone_tasks tbp = (case js_get tbp ''standalone'' of Own ts \<Rightarrow> Some ts | _ \<Rightarrow> None)"

text \<open>\<open>xs.forEach(f)\<close> / \<open>xs.map(f)\<close> with a callback that may throw.\<close>

fun map_throw :: "('a \<Rightarrow> js_error + 'b) \<Rightarrow> 'a list \<Rightarrow> js_error + 'b list" where
  "map_throw f [] = Inr []"
| "map_throw f (x # xs) =
     (case f x of
        Inl e \<Rightarrow> Inl e
      | Inr y \<Rightarrow> (case map_throw f xs of Inl e \<Rightarrow> Inl e | Inr ys \<Rightarrow> Inr (y # ys)))"

text \<open>
  What the markup of one assignee shows: each story with its related tasks (when it has
  the block) and the standalone block (when present).
\<close>

record assignee_card =
  card_assignee :: string
  card_stories :: "(ticket \<times> ticket list option) list"
  card_standalone :: "ticket list option"

definition story_row ::
  "(string \<times> ticket list) list \<Rightarrow> ticket \<Rightarrow> js_error + (ticket \<times> ticket list option)" where
  "story_row tbp story =
     (case related_tasks tbp story of Inl e \<Rightarrow> Inl e | Inr r \<Rightarrow> Inr (story, r))"

definition render_card :: "string \<times> bucket \<Rightarrow> js_error + assignee_card" where
  "render_card ab =
     (case tasksByParent (snd ab) of
        Inl e \<Rightarrow> Inl e
      | Inr tbp \<Rightarrow>
          (case map_throw (story_row tbp) (userStories (snd ab)) of
             Inl e \<Rightarrow> Inl e
           | Inr rows \<Rightarrow>
               Inr \<lparr>card_assignee = fst ab, card_stories = rows,
                    card_standalone = standalone_tasks tbp\<rparr>))"

text \<open>
  The stats. Both variants filter the ticket list: \<open>...includes('story')\<close> and
  \<open>...includes('task')\<close>. The refactored \<open>renderDashboard\<close> counts the keys of the grouping
  for \<open>assignees\<close>; \<open>calculateStats\<close> of the first variant counts distinct assignees.
  The fields \<open>userStories\<close> and \<open>tasks\<close> of the stats carry a prime.
\<close>

record stats =
  totalTickets :: nat
  userStories' :: nat
  tasks' :: nat
  assignees :: nat

definition is_task :: "ticket \<Rightarrow> bool" where
  "is_task t = js_includes (toLowerCase (js_or (type' t) [])) ''task''"

definition render_stats :: "ticket list \<Rightarrow> (string \<times> bucket) list \<Rightarrow> stats" where
  "render_stats tickets grouped =
     \<lparr>totalTickets = length tickets,
      userStories' = length (filter is_story tickets),
      tasks' = length (filter is_task tickets),
      assignees = length grouped\<rparr>"

definition calculateStats :: "ticket list \<Rightarrow> stats" where
  "calculateStats tickets =
     \<lparr>totalTickets = length tickets,
      userStories' = length (filter (\<lambda>t. js_includes (toLowerCase (type' t)) ''story'') tickets),
      tasks' = length (filter (\<lambda>t. js_includes (toLowerCase (type' t)) ''task'') tickets),
      assignees = length (remdups (map assignee tickets))\<rparr>"

text \<open>Stories and tasks held by the buckets of a grouping.\<close>

definition bucket_stories_total :: "(string \<times> bucket) list \<Rightarrow> nat" where
  "bucket_stories_total g = sum_list (map (\<lambda>kb. length (userStories (snd kb))) g)"

definition bucket_tasks_total :: "(string \<times> bucket) list \<Rightarrow> nat" where
  "bucket_tasks_total g = sum_list (map (\<lambda>kb. length (tasks (snd kb))) g)"

section \<open>Feed documents\<close>

text \<open>
  \<open>DOMParser.parseFromString\<close> is the browser's; the model starts from the document it
  returns. A node is an element (tag, attributes, children) or a run of text (a text or
  CDATA node); comments and processing instructions carry no text content and are left
  out.
\<close>

datatype node = Element string "(string \<times> string) list" "node list" | Text string

fun textContent :: "node \<Rightarrow> string" where
  "textContent (Text s) = s"
| "textContent (Element t as ks) = concat (map textContent ks)"

text \<open>The proper descendants of a node in document order.\<close>

fun descendants :: "node \<Rightarrow> node list" where
  "descendants (Text s) = []"
| "descendants (Element t as ks) = concat (map (\<lambda>k. k # descendants k) ks)"

fun is_element :: "string \<Rightarrow> node \<Rightarrow> bool" where
  "is_element tag (Element t as ks) = (t = tag)"
| "is_element tag (Text s) = False"

definition querySelectorAll :: "string \<Rightarrow> node \<Rightarrow> node list" where
  "querySelectorAll tag n = filter (is_element tag) (descendants n)"

definition querySelector :: "string \<Rightarrow> node \<Rightarrow> node option" where
  "querySelector tag n = (case querySelectorAll tag n of [] \<Rightarrow> None | e # es \<Rightarrow> Some e)"

fun getAttribute :: "string \<Rightarrow> node \<Rightarrow> string option" where
  "getAttribute name (Element t as ks) = map_of as name"
| "getAttribute name (Text s) = None"

text \<open>\<open>item.querySelector(tag)?.textContent\<close>\<close>

definition elemText :: "string \<Rightarrow> node \<Rightarrow> string option" where
  "elemText tag item = map_option textContent (querySelector tag item)"

section \<open>Parser\<close>

text \<open>
  \<open>s.replace(/pat/g, rep)\<close> for a literal, non-empty pattern: scan from the left, replace
  each match and go on after it.
\<close>

function replace_all :: "string \<Rightarrow> string \<Rightarrow> string \<Rightarrow> string" where
  "replace_all pat rep [] = []"
| "replace_all pat rep (c # cs) =
     (if pat \<noteq> [] \<and> prefix pat (c # cs)
      then rep @ replace_all pat rep (drop (length pat) (c # cs))
      else c # replace_all pat rep cs)"
  by pat_completeness auto
termination
  by (relation "measure (\<lambda>(pat, rep, s). length s)") auto

text \<open>The four replacements of the parser, in the order of the source.\<close>

definition decode_entities :: "string \<Rightarrow> string" where
  "decode_entities s =
     replace_all ''&quot;'' [CHR 0x22]
       (replace_all ''&amp;'' ''&''
          (replace_all ''&gt;'' ''>''
             (replace_all ''&lt;'' ''<'' s)))"

text \<open>White space of \<open>trim\<close> and of \<open>\s\<close> within the 8-bit range.\<close>

definition js_space_chars :: "char list" where
  "js_space_chars = [CHR 0x09, CHR 0x0A, CHR 0x0B, CHR 0x0C, CHR 0x0D, CHR 0x20, CHR 0xA0]"

definition is_js_space :: "char \<Rightarrow> bool" where
  "is_js_space c = (c \<in> set js_space_chars)"

definition trim :: "string \<Rightarrow> string" where
  "trim s = rev (dropWhile is_js_space (rev (dropWhile is_js_space s)))"

text \<open>\<open>s.split(':')[0]\<close>\<close>

definition before_colon :: "string \<Rightarrow> string" where
  "before_colon s = takeWhile (\<lambda>c. c \<noteq> CHR '':'') s"

text \<open>\<open>s.replace(/^[^:]*:\s*/, '')\<close>: without a colon nothing matches.\<close>

definition strip_key_prefix :: "string \<Rightarrow> string" where
  "strip_key_prefix s =
     (if CHR '':'' \<in> set s
      then dropWhile is_js_space (tl (dropWhile (\<lambda>c. c \<noteq> CHR '':'') s))
      else s)"

definition item_description :: "node \<Rightarrow> string" where
  "item_description item =
     (case querySelector ''description'' item of
        None \<Rightarrow> []
      | Some e \<Rightarrow> trim (decode_entities (js_or (textContent e) [])))"

text \<open>
  \<open>x || null\<close>, as the refactored variants apply it to the attributes of a comment. (The
  first variant stores the attributes as they are and has no default author; the body is
  computed in the same way.)
\<close>

definition or_null :: "string option \<Rightarrow> string option" where
  "or_null x = (case x of None \<Rightarrow> None | Some s \<Rightarrow> if s = [] then None else Some s)"

definition parse_comment :: "node \<Rightarrow> comment" where
  "parse_comment c =
     \<lparr>comment_id = or_null (getAttribute ''id'' c),
      author = opt_or (getAttribute ''author'' c) (opt_or (getAttribute ''username'' c) ''Unknown''),
      comment_created = or_null (getAttribute ''created'' c),
      body = trim (decode_entities (js_or (textContent c) []))\<rparr>"

definition item_comments :: "node \<Rightarrow> comment list" where
  "item_comments item =
     (case querySelector ''comments'' item of
        None \<Rightarrow> []
      | Some cs \<Rightarrow> map parse_comment (querySelectorAll ''comment'' cs))"

text \<open>
  \<open>key\<close>: the text of the key element, else the title before its first colon, else the
  empty string.
\<close>

definition item_key :: "node \<Rightarrow> string" where
  "item_key item =
     opt_or (elemText ''key'' item)
       (js_or (before_colon (opt_or (elemText ''title'' item) [])) [])"

definition item_summary :: "node \<Rightarrow> string" where
  "item_summary item =
     opt_or (elemText ''summary'' item)
       (opt_or (map_option strip_key_prefix (elemText ''title'' item)) [])"

text \<open>
  The ticket literal. \<open>now\<close> stands for \<open>new Date().toISOString()\<close>; the readings of the
  clock during one parse are taken to be one string.
\<close>

definition make_ticket :: "string \<Rightarrow> node \<Rightarrow> ticket" where
  "make_ticket now item =
     \<lparr>id' = opt_or (elemText ''guid'' item) (opt_or (elemText ''link'' item) []),
      key = item_key item,
      summary = item_summary item,
      description = item_description item,
      type' = opt_or (elemText ''type'' item) ''Task'',
      status = opt_or (elemText ''status'' item) ''Unknown'',
      assignee = opt_or (elemText ''assignee'' item)
                   (opt_or (elemText ''reporter'' item) ''Unassigned''),
      priority = opt_or (elemText ''priority'' item) ''Medium'',
      updated = opt_or (elemText ''updated'' item) (opt_or (elemText ''pubDate'' item) now),
      created = opt_or (elemText ''created'' item) (opt_or (elemText ''pubDate'' item) now),
      parentKey = or_null (elemText ''parent'' item),
      link = opt_or (elemText ''link'' item) [],
      comments = item_comments item,
      sprint = None\<rparr>"

text \<open>The sprint variant reads the sprint from the custom fields: the last one wins.\<close>

definition item_sprint :: "node \<Rightarrow> string" where
  "item_sprint item =
     foldl (\<lambda>s cf. if opt_or (elemText ''customfieldname'' cf) [] = ''Sprint''
                     then opt_or (elemText ''customfieldvalue'' cf) s else s)
       ''No Sprint'' (querySelectorAll ''customfield'' item)"

definition make_ticket_sprint :: "string \<Rightarrow> node \<Rightarrow> ticket" where
  "make_ticket_sprint now item = (make_ticket now item)\<lparr>sprint := Some (item_sprint item)\<rparr>"

text \<open>
  The body of the \<open>forEach\<close>: build the ticket, push it when its key is truthy. No
  operation of the body can throw on a document node, so the \<open>catch\<close> branch has no
  counterpart.
\<close>

definition parse_item :: "string \<Rightarrow> ticket list \<Rightarrow> node \<Rightarrow> ticket list" where
  "parse_item now tickets item =
     (let ticket = make_ticket now item
      in if key ticket \<noteq> [] then tickets @ [ticket] else tickets)"

definition parseJiraXML :: "string \<Rightarrow> node \<Rightarrow> ticket list" where
  "parseJiraXML now xmlDoc = foldl (parse_item now) [] (querySelectorAll ''item'' xmlDoc)"

definition parse_item_sprint :: "string \<Rightarrow> ticket list \<Rightarrow> node \<Rightarrow> ticket list" where
  "parse_item_sprint now tickets item =
     (let ticket = make_ticket_sprint now item
      in if key ticket \<noteq> [] then tickets @ [ticket] else tickets)"

definition parseJiraXML_sprint :: "string \<Rightarrow> node \<Rightarrow> ticket list" where
  "parseJiraXML_sprint now xmlDoc =
     foldl (parse_item_sprint now) [] (querySelectorAll ''item'' xmlDoc)"

section \<open>The page, the overlay and the run\<close>

text \<open>
  The page is the list of the children of \<open>document.body\<close>, each a tree. The three
  functions below are \<open>document.getElementById(i)\<close> (the first element in document order
  whose \<open>id\<close> attribute is \<open>i\<close>), \<open>existing.remove()\<close> applied to that element, and the
  number of elements that carry the id.
\<close>

definition overlay_id :: string where
  "overlay_id = ''jira-dashboard-popup''"

fun getElementById :: "string \<Rightarrow> node list \<Rightarrow> node option" where
  "getElementById i [] = None"
| "getElementById i (Text s # ns) = getElementById i ns"
| "getElementById i (Element t as ks # ns) =
     (if map_of as ''id'' = Some i then Some (Element t as ks)
      else case getElementById i ks of
             Some e \<Rightarrow> Some e
           | None \<Rightarrow> getElementById i ns)"

fun remove_element :: "string \<Rightarrow> node list \<Rightarrow> node list" where
  "remove_element i [] = []"
| "remove_element i (Text s # ns) = Text s # remove_element i ns"
| "remove_element i (Element t as ks # ns) =
     (if map_of as ''id'' = Some i then ns
      else if getElementById i ks \<noteq> None then Element t as (remove_element i ks) # ns
      else Element t as ks # remove_element i ns)"

fun count_id :: "string \<Rightarrow> node list \<Rightarrow> nat" where
  "count_id i [] = 0"
| "count_id i (Text s # ns) = count_id i ns"
| "count_id i (Element t as ks # ns) =
     (if map_of as ''id'' = Some i then 1 else 0) + count_id i ks + count_id i ns"

text \<open>
  What a render leaves in \<open>currentData\<close>, and what the markup is built from. The markup
  string and the browser's HTML parser are not modelled: \<open>view\<close>, a parameter of the
  render, gives the nodes that \<open>insertAdjacentHTML\<close> appends for a dashboard.
\<close>

record snapshot =
  cur_tickets :: "ticket list"
  cur_grouped :: "(string \<times> bucket) list"
  cur_stats :: stats

record dashboard =
  d_stats :: stats
  d_cards :: "assignee_card list"
  d_error :: "js_error option"

record world =
  page :: "node list"
  console :: "(string \<times> js_error) list"
  fetches :: nat
  currentData :: "snapshot option"

text \<open>The loading popup (inline styles left out).\<close>

definition loading_popup :: node where
  "loading_popup =
     Element ''div'' [(''id'', overlay_id)]
       [Element ''div'' []
          [Element ''div'' [] [],
           Element ''h3'' [] [Text ''Fetching JIRA Data''],
           Element ''p'' [] [Text ''Processing JIRA XML response...'']],
        Element ''style'' [] []]"

text \<open>\<open>showLoading\<close> of the refactored variants removes an existing overlay first.\<close>

definition showLoading :: "world \<Rightarrow> world" where
  "showLoading w = w\<lparr>page := remove_element overlay_id (page w) @ [loading_popup]\<rparr>"

text \<open>The first variant appends the loading popup without looking for an overlay.\<close>

definition showLoading_v1 :: "world \<Rightarrow> world" where
  "showLoading_v1 w = w\<lparr>page := page w @ [loading_popup]\<rparr>"

text \<open>
  \<open>renderDashboard\<close> (refactored variant): group, compute the stats, store
  \<open>currentData\<close>, build the markup card by card, then replace the overlay. The result is
  the world it leaves and the exception it throws, if any.
\<close>

definition renderDashboard ::
  "(dashboard \<Rightarrow> node list) \<Rightarrow> ticket list \<Rightarrow> world \<Rightarrow> world \<times> js_error option" where
  "renderDashboard view tickets w =
     (case groupTicketsByAssignee tickets of
        Inl e \<Rightarrow> (w, Some e)
      | Inr grouped \<Rightarrow>
          (let stats = render_stats tickets grouped;
               w1 = w\<lparr>currentData :=
                       Some \<lparr>cur_tickets = tickets, cur_grouped = grouped, cur_stats = stats\<rparr>\<rparr>
           in case map_throw render_card (object_entries grouped) of
                Inl e \<Rightarrow> (w1, Some e)
              | Inr cards \<Rightarrow>
                  (w1\<lparr>page := remove_element overlay_id (page w1) @
                                view \<lparr>d_stats = stats, d_cards = cards, d_error = None\<rparr>\<rparr>,
                   None)))"

text \<open>
  \<open>renderDashboard(tickets, error)\<close> of the first variant. After the insertion it calls
  \<open>addEventListener\<close> on \<open>getElementById(...)\<close> without a guard.
\<close>

definition renderDashboard_v1 ::
  "(dashboard \<Rightarrow> node list) \<Rightarrow> ticket list \<Rightarrow> js_error option \<Rightarrow> world
     \<Rightarrow> world \<times> js_error option" where
  "renderDashboard_v1 view tickets error w =
     (case groupTicketsByAssignee_v1 tickets of
        Inl e \<Rightarrow> (w, Some e)
      | Inr grouped \<Rightarrow>
          (let stats = calculateStats tickets;
               w1 = w\<lparr>currentData :=
                       Some \<lparr>cur_tickets = tickets, cur_grouped = grouped, cur_stats = stats\<rparr>\<rparr>
           in case map_throw render_card (object_entries grouped) of
                Inl e \<Rightarrow> (w1, Some e)
              | Inr cards \<Rightarrow>
                  (let w2 = w1\<lparr>page := remove_element overlay_id (page w1) @
                                        view \<lparr>d_stats = stats, d_cards = cards, d_error = error\<rparr>\<rparr>
                   in (w2, if getElementById overlay_id (page w2) = None
                           then Some TypeError else None))))"

text \<open>
  The dashboard whose markup a render inserts: the stats and the cards it has computed
  when it reaches \<open>insertAdjacentHTML\<close>. These two functions repeat the first half of the
  two renders and serve to name that dashboard in the properties below.
\<close>

definition dashboard_of :: "ticket list \<Rightarrow> js_error + dashboard" where
  "dashboard_of tickets =
     (case groupTicketsByAssignee tickets of
        Inl e \<Rightarrow> Inl e
      | Inr grouped \<Rightarrow>
          (case map_throw render_card (object_entries grouped) of
             Inl e \<Rightarrow> Inl e
           | Inr cards \<Rightarrow>
               Inr \<lparr>d_stats = render_stats tickets grouped, d_cards = cards, d_error = None\<rparr>))"

definition dashboard_of_v1 :: "ticket list \<Rightarrow> js_error option \<Rightarrow> js_error + dashboard" where
  "dashboard_of_v1 tickets error =
     (case groupTicketsByAssignee_v1 tickets of
        Inl e \<Rightarrow> Inl e
      | Inr grouped \<Rightarrow>
          (case map_throw render_card (object_entries grouped) of
             Inl e \<Rightarrow> Inl e
           | Inr cards \<Rightarrow>
               Inr \<lparr>d_stats = calculateStats tickets, d_cards = cards, d_error = error\<rparr>))"

text \<open>
  The fetch: it is rejected (network failure), or it answers with a status, a status text
  and a body, here the parsed document. \<open>response.ok\<close> is a status from 200 to 299.
\<close>

datatype fetch_outcome = Rejected string | Response nat string node

definition fetchJiraData :: "string \<Rightarrow> fetch_outcome \<Rightarrow> js_error + ticket list" where
  "fetchJiraData now outcome =
     (case outcome of
        Rejected msg \<Rightarrow> Inl (NetworkError msg)
      | Response st txt doc \<Rightarrow>
          if 200 \<le> st \<and> st \<le> 299 then Inr (parseJiraXML now doc) else Inl (HttpError st txt))"

text \<open>
  The last statement of the refactored script:
  \<open>fetchJiraData().then(tickets => renderDashboard(tickets))
     .catch(err => { renderDashboard([]); console.error(err); })\<close>,
  after \<open>showLoading()\<close>. \<open>fetches\<close> counts the calls of \<open>fetch\<close>. (The sprint variant runs
  the same statements with its own grouping.)
\<close>

definition on_rejected :: "(dashboard \<Rightarrow> node list) \<Rightarrow> js_error \<Rightarrow> world \<Rightarrow> world" where
  "on_rejected view err w =
     (case renderDashboard view [] w of
        (w', None) \<Rightarrow> w'\<lparr>console := console w' @ [([], err)]\<rparr>
      | (w', Some e) \<Rightarrow> w')"

definition run :: "(dashboard \<Rightarrow> node list) \<Rightarrow> string \<Rightarrow> fetch_outcome \<Rightarrow> world \<Rightarrow> world" where
  "run view now outcome w =
     (let w1 = showLoading w;
          w2 = w1\<lparr>fetches := Suc (fetches w1)\<rparr>
      in case fetchJiraData now outcome of
           Inl err \<Rightarrow> on_rejected view err w2
         | Inr tickets \<Rightarrow>
             (case renderDashboard view tickets w2 of
                (w3, None) \<Rightarrow> w3
              | (w3, Some e) \<Rightarrow> on_rejected view e w3))"

text \<open>
  The first variant, up to the end of its closure (the statements that follow the closure
  in that file call a function that is not defined and are not modelled):
  \<open>fetchJiraData\<close> logs \<open>'Fetch error:'\<close> and rethrows; the handler logs
  \<open>'Error:'\<close> and then calls \<open>renderDashboard([], error.message)\<close>; the message is
  represented by the error it belongs to.
\<close>

definition on_rejected_v1 :: "(dashboard \<Rightarrow> node list) \<Rightarrow> js_error \<Rightarrow> world \<Rightarrow> world" where
  "on_rejected_v1 view err w =
     fst (renderDashboard_v1 view [] (Some err)
            (w\<lparr>console := console w @ [(''Error:'', err)]\<rparr>))"

definition run_v1 :: "(dashboard \<Rightarrow> node list) \<Rightarrow> string \<Rightarrow> fetch_outcome \<Rightarrow> world \<Rightarrow> world" where
  "run_v1 view now outcome w =
     (let w1 = showLoading_v1 w;
          w2 = w1\<lparr>fetches := Suc (fetches w1)\<rparr>
      in case fetchJiraData now outcome of
           Inl err \<Rightarrow> on_rejected_v1 view err (w2\<lparr>console := console w2 @ [(''Fetch error:'', err)]\<rparr>)
         | Inr tickets \<Rightarrow>
             (case renderDashboard_v1 view tickets None w2 of
                (w3, None) \<Rightarrow> w3
              | (w3, Some e) \<Rightarrow> on_rejected_v1 view e w3))"

section \<open>What the reducers compute\<close>

text \<open>
  The reducers share one idiom: \<open>if (!acc[k]) acc[k] = init; acc[k].push(...)\<close>. \<open>upsert\<close>
  is that idiom, and \<open>keyed kf val ts\<close> is the dictionary it builds from the elements
  \<open>ts\<close>: the keys \<open>kf t\<close> in the order of their first occurrence, each with the value
  \<open>val k ts\<close>. These definitions describe the results; the reducers above are compared
  with them.
\<close>

definition first_seen :: "'a list \<Rightarrow> 'a list" where
  "first_seen xs = rev (remdups (rev xs))"

definition upsert ::
  "(string \<times> 'v) list \<Rightarrow> string \<Rightarrow> 'v \<Rightarrow> ('v \<Rightarrow> 'v) \<Rightarrow> js_error + (string \<times> 'v) list" where
  "upsert acc k init f =
     (case js_get acc k of
        Inherited \<Rightarrow> Inl TypeError
      | Absent \<Rightarrow> Inr (js_set acc k (f init))
      | Own v \<Rightarrow> Inr (js_set acc k (f v)))"

definition keyed ::
  "('t \<Rightarrow> string) \<Rightarrow> (string \<Rightarrow> 't list \<Rightarrow> 'v) \<Rightarrow> 't list \<Rightarrow> (string \<times> 'v) list" where
  "keyed kf val ts = map (\<lambda>k. (k, val k ts)) (first_seen (map kf ts))"

definition inherited_key :: "string \<Rightarrow> bool" where
  "inherited_key k = (k \<in> set object_prototype_keys)"

definition bucket_for :: "string \<Rightarrow> ticket list \<Rightarrow> bucket" where
  "bucket_for a ts =
     \<lparr>userStories = filter (\<lambda>t. assignee_of t = a \<and> is_story t) ts,
      tasks = filter (\<lambda>t. assignee_of t = a \<and> \<not> is_story t) ts,
      raw = filter (\<lambda>t. assignee_of t = a) ts\<rparr>"

definition grouping_of :: "ticket list \<Rightarrow> (string \<times> bucket) list" where
  "grouping_of ts = keyed assignee_of bucket_for ts"

definition bucket_for_v1 :: "string \<Rightarrow> ticket list \<Rightarrow> bucket" where
  "bucket_for_v1 a ts =
     \<lparr>userStories = filter (\<lambda>t. assignee t = a \<and> is_story t) ts,
      tasks = filter (\<lambda>t. assignee t = a \<and> \<not> is_story t) ts,
      raw = []\<rparr>"

definition grouping_of_v1 :: "ticket list \<Rightarrow> (string \<times> bucket) list" where
  "grouping_of_v1 ts = keyed assignee bucket_for_v1 ts"

definition in_sprint :: "string \<Rightarrow> ticket list \<Rightarrow> ticket list" where
  "in_sprint s ts = filter (\<lambda>t. sprint_of t = s) ts"

definition sprint_grouping_of :: "ticket list \<Rightarrow> (string \<times> (string \<times> bucket) list) list" where
  "sprint_grouping_of ts = keyed sprint_of (\<lambda>s ts. grouping_of (in_sprint s ts)) ts"

definition with_parent :: "string \<Rightarrow> ticket list \<Rightarrow> ticket list" where
  "with_parent p ts = filter (\<lambda>t. parent_of t = p) ts"

definition tasks_by_parent_of :: "ticket list \<Rightarrow> (string \<times> ticket list) list" where
  "tasks_by_parent_of ts = keyed parent_of with_parent ts"

section \<open>Example inputs\<close>

text \<open>A ticket with the given key, type, assignee and parent; the other fields are fixed.\<close>

definition example_ticket :: "string \<Rightarrow> string \<Rightarrow> string \<Rightarrow> string option \<Rightarrow> ticket" where
  "example_ticket k ty a p =
     \<lparr>id' = [], key = k, summary = [], description = [], type' = ty, status = ''Unknown'',
      assignee = a, priority = ''Medium'', updated = [], created = [], parentKey = p,
      link = [], comments = [], sprint = None\<rparr>"

definition bug_ticket :: ticket where
  "bug_ticket = example_ticket ''PROJ-3'' ''Bug'' ''Alice'' None"

definition story_ticket :: ticket where
  "story_ticket = example_ticket ''PROJ-1'' ''Story'' ''Alice'' None"

definition task_ticket :: ticket where
  "task_ticket = example_ticket ''PROJ-2'' ''Task'' ''Alice'' (Some ''PROJ-1'')"

definition constructor_ticket :: ticket where
  "constructor_ticket = example_ticket ''PROJ-9'' ''Task'' ''constructor'' None"

definition orphan_task :: ticket where
  "orphan_task = example_ticket ''PROJ-7'' ''Task'' ''Alice'' (Some ''PROJ-99'')"

definition loose_task :: ticket where
  "loose_task = example_ticket ''PROJ-8'' ''Task'' ''Alice'' None"

text \<open>A task without a usable parent: \<open>t.parentKey || 'standalone'\<close> is \<open>'standalone'\<close>.\<close>

definition unlinked :: "ticket \<Rightarrow> bool" where
  "unlinked t = (parentKey t = None \<or> parentKey t = Some [] \<or> parentKey t = Some ''standalone'')"

definition orphan_bucket :: bucket where
  "orphan_bucket = \<lparr>userStories = [], tasks = [orphan_task], raw = [orphan_task]\<rparr>"

definition mixed_bucket :: bucket where
  "mixed_bucket =
     \<lparr>userStories = [story_ticket], tasks = [task_ticket, loose_task],
      raw = [story_ticket, task_ticket, loose_task]\<rparr>"

text \<open>Small feeds: an element with one text child, and items with only a key or only a title.\<close>

definition leaf :: "string \<Rightarrow> string \<Rightarrow> node" where
  "leaf tag txt = Element tag [] [Text txt]"

definition feed :: "node list \<Rightarrow> node" where
  "feed items = Element ''rss'' [] [Element ''channel'' [] items]"

definition keyed_item :: "string \<Rightarrow> node" where
  "keyed_item k = Element ''item'' [] [leaf ''key'' k]"

definition titled_item :: "string \<Rightarrow> node" where
  "titled_item t = Element ''item'' [] [leaf ''title'' t]"

text \<open>The records with a given key, and the items that resolve to it.\<close>

definition tickets_with_key :: "string \<Rightarrow> ticket list \<Rightarrow> ticket list" where
  "tickets_with_key k ts = filter (\<lambda>t. key t = k) ts"

definition items_with_key :: "string \<Rightarrow> node \<Rightarrow> node list" where
  "items_with_key k xmlDoc = filter (\<lambda>i. item_key i = k) (querySelectorAll ''item'' xmlDoc)"

text \<open>
  An item without a resolvable key, told by its markup: the key element is absent or has
  no text, and the title is absent, has no text or starts with a colon.
\<close>

definition no_text :: "string option \<Rightarrow> bool" where
  "no_text x = (case x of None \<Rightarrow> True | Some s \<Rightarrow> s = [])"

definition keyless :: "node \<Rightarrow> bool" where
  "keyless item =
     (no_text (elemText ''key'' item) \<and>
      (case elemText ''title'' item of None \<Rightarrow> True | Some s \<Rightarrow> s = [] \<or> hd s = CHR '':''))"

text \<open>
  An item with an empty key element and the title ": Fix login"; an item with a key, a
  link, a title and a publication date only.
\<close>

definition colon_title_item :: node where
  "colon_title_item = Element ''item'' [] [leaf ''key'' [], leaf ''title'' '': Fix login'']"



text \<open>A reading of the clock.\<close>

definition clock :: string where
  "clock = ''2025-01-01T00:00:00.000Z''"

text \<open>An item whose description and only comment have the text \<open>&amp;quot;\<close>.\<close>

definition amp_quot_item :: node where
  "amp_quot_item =
     Element ''item'' []
       [leaf ''key'' ''PROJ-5'',
        leaf ''description'' ''&amp;quot;'',
        Element ''comments'' [] [Element ''comment'' [(''author'', ''bob'')] [Text ''&amp;quot;'']]]"

text \<open>
  A view that yields the bare overlay element; pages without and with loading popups; the
  dashboard and the snapshot of an empty ticket list.
\<close>

definition plain_view :: "dashboard \<Rightarrow> node list" where
  "plain_view d = [Element ''div'' [(''id'', overlay_id)] []]"

text \<open>
  A view whose markup depends on the dashboard: the overlay element holds one element per
  card, with the assignee's name. Three tickets of one assignee and their dashboard.
\<close>

definition card_view :: "dashboard \<Rightarrow> node list" where
  "card_view d =
     [Element ''div'' [(''id'', overlay_id)]
        (map (\<lambda>c. Element ''div'' [(''class'', ''assignee-card'')] [Text (card_assignee c)])
           (d_cards d))]"

definition alice_tickets :: "ticket list" where
  "alice_tickets = [story_ticket, task_ticket, loose_task]"

definition alice_dashboard :: dashboard where
  "alice_dashboard =
     \<lparr>d_stats = \<lparr>totalTickets = 3, userStories' = 1, tasks' = 2, assignees = 1\<rparr>,
      d_cards = [\<lparr>card_assignee = ''Alice'',
                  card_stories = [(story_ticket, Some [task_ticket])],
                  card_standalone = Some [loose_task]\<rparr>],
      d_error = None\<rparr>"

definition empty_world :: world where
  "empty_world = \<lparr>page = [], console = [], fetches = 0, currentData = None\<rparr>"

definition loading_world :: world where
  "loading_world = \<lparr>page = [loading_popup], console = [], fetches = 0, currentData = None\<rparr>"

definition twice_loading_world :: world where
  "twice_loading_world =
     \<lparr>page = [loading_popup, loading_popup], console = [], fetches = 0, currentData = None\<rparr>"

definition empty_dashboard :: dashboard where
  "empty_dashboard = \<lparr>d_stats = render_stats [] [], d_cards = [], d_error = None\<rparr>"

definition empty_snapshot :: snapshot where
  "empty_snapshot = \<lparr>cur_tickets = [], cur_grouped = [], cur_stats = render_stats [] []\<rparr>"

section \<open>Properties of the dictionaries\<close>

lemma first_seen_snoc:
  "first_seen (xs @ [x]) = (if x \<in> set xs then first_seen xs else first_seen xs @ [x])"
  by (simp add: first_seen_def)

lemma first_seen_set [simp]: "set (first_seen xs) = set xs"
  by (simp add: first_seen_def)

lemma first_seen_distinct [simp]: "distinct (first_seen xs)"
  by (simp add: first_seen_def)

lemma first_seen_Nil [simp]: "first_seen [] = []"
  by (simp add: first_seen_def)

lemma js_set_absent: "map_of obj k = None \<Longrightarrow> js_set obj k v = obj @ [(k, v)]"
  by (induction obj) (auto split: if_splits)

lemma js_set_map_own:
  "distinct ks \<Longrightarrow> k \<in> set ks \<Longrightarrow>
   js_set (map (\<lambda>a. (a, f a)) ks) k v = map (\<lambda>a. (a, if a = k then v else f a)) ks"
  by (induction ks) auto

lemma map_of_map_key:
  "map_of (map (\<lambda>a. (a, f a)) ks) k = (if k \<in> set ks then Some (f k) else None)"
  by (induction ks) auto

lemma js_get_keyed:
  "js_get (keyed kf val ts) k =
     (if k \<in> kf ` set ts then Own (val k ts)
      else if inherited_key k then Inherited else Absent)"
  by (simp add: js_get_def keyed_def map_of_map_key inherited_key_def)

lemma keyed_Nil [simp]: "keyed kf val [] = []"
  by (simp add: keyed_def)

lemma keyed_keys: "map fst (keyed kf val ts) = first_seen (map kf ts)"
  by (simp add: keyed_def comp_def)

text \<open>Writing the new value of the key of \<open>t\<close> turns the dictionary of \<open>ts\<close> into that of \<open>ts @ [t]\<close>.\<close>

lemma js_set_keyed:
  assumes same: "val (kf t) (ts @ [t]) = v"
      and other: "\<And>k. k \<noteq> kf t \<Longrightarrow> val k (ts @ [t]) = val k ts"
  shows "js_set (keyed kf val ts) (kf t) v = keyed kf val (ts @ [t])"
proof (cases "kf t \<in> kf ` set ts")
  case True
  then show ?thesis
    using same other by (auto simp: keyed_def js_set_map_own first_seen_snoc)
next
  case False
  then have abs: "map_of (keyed kf val ts) (kf t) = None"
    by (simp add: keyed_def map_of_map_key)
  have "val (kf x) (ts @ [t]) = val (kf x) ts" if "x \<in> set ts" for x
  proof (rule other)
    show "kf x \<noteq> kf t" using that False by (metis imageI)
  qed
  then have "keyed kf val ts @ [(kf t, v)] = keyed kf val (ts @ [t])"
    using False same by (auto simp: keyed_def first_seen_snoc)
  with abs show ?thesis
    by (simp add: js_set_absent)
qed

lemma upsert_keyed:
  assumes fresh: "kf t \<notin> kf ` set ts \<Longrightarrow> val (kf t) ts = init"
      and same: "val (kf t) (ts @ [t]) = f (val (kf t) ts)"
      and other: "\<And>k. k \<noteq> kf t \<Longrightarrow> val k (ts @ [t]) = val k ts"
  shows "upsert (keyed kf val ts) (kf t) init f =
           (if inherited_key (kf t) \<and> kf t \<notin> kf ` set ts then Inl TypeError
            else Inr (keyed kf val (ts @ [t])))"
proof -
  have "js_set (keyed kf val ts) (kf t) (f (val (kf t) ts)) = keyed kf val (ts @ [t])"
    using same other by (intro js_set_keyed) simp_all
  then show ?thesis
    using fresh by (auto simp: upsert_def js_get_keyed)
qed

text \<open>A reducer whose step is such an upsert returns the dictionary, or throws at an inherited key.\<close>

lemma reduce_keyed:
  assumes step: "\<And>ts t. stepf (keyed kf val ts) t =
             (if inherited_key (kf t) \<and> kf t \<notin> kf ` set ts then Inl TypeError
              else Inr (keyed kf val (ts @ [t])))"
      and clean: "\<forall>t \<in> set done. \<not> inherited_key (kf t)"
  shows "reduce stepf ts (keyed kf val done) =
           (if \<exists>t \<in> set ts. inherited_key (kf t) then Inl TypeError
            else Inr (keyed kf val (done @ ts)))"
  using clean
proof (induction ts arbitrary: "done")
  case Nil
  then show ?case by simp
next
  case (Cons t ts)
  show ?case
  proof (cases "inherited_key (kf t)")
    case True
    with Cons.prems have "kf t \<notin> kf ` set done" by auto
    with True show ?thesis by (simp add: step)
  next
    case False
    with Cons.prems have "\<forall>t \<in> set (done @ [t]). \<not> inherited_key (kf t)" by simp
    from Cons.IH [OF this] False show ?thesis by (simp add: step)
  qed
qed

section \<open>The reducers compute those dictionaries\<close>

lemma push_bucket_for:
  "assignee_of t = a \<Longrightarrow> push_ticket t (bucket_for a ts) = bucket_for a (ts @ [t])"
  by (simp add: push_ticket_def bucket_for_def Let_def)

lemma bucket_for_other:
  "a \<noteq> assignee_of t \<Longrightarrow> bucket_for a (ts @ [t]) = bucket_for a ts"
  by (auto simp: bucket_for_def)

lemma bucket_for_fresh:
  "a \<notin> assignee_of ` set ts \<Longrightarrow> bucket_for a ts = empty_bucket"
  by (auto simp: bucket_for_def empty_bucket_def filter_empty_conv)

lemma groupTicketsByAssignee_step_upsert:
  "groupTicketsByAssignee_step acc t = upsert acc (assignee_of t) empty_bucket (push_ticket t)"
  by (simp add: groupTicketsByAssignee_step_def upsert_def Let_def)

lemma groupTicketsByAssignee_step_grouping:
  "groupTicketsByAssignee_step (grouping_of ts) t =
     (if inherited_key (assignee_of t) \<and> assignee_of t \<notin> assignee_of ` set ts then Inl TypeError
      else Inr (grouping_of (ts @ [t])))"
  unfolding groupTicketsByAssignee_step_upsert grouping_of_def
  by (rule upsert_keyed) (simp_all add: bucket_for_fresh push_bucket_for bucket_for_other)

lemma groupTicketsByAssignee_eq:
  "groupTicketsByAssignee ts =
     (if \<exists>t \<in> set ts. inherited_key (assignee_of t) then Inl TypeError
      else Inr (grouping_of ts))"
proof -
  have "reduce groupTicketsByAssignee_step ts (keyed assignee_of bucket_for []) =
          (if \<exists>t \<in> set ts. inherited_key (assignee_of t) then Inl TypeError
           else Inr (keyed assignee_of bucket_for ([] @ ts)))"
    by (rule reduce_keyed)
       (simp_all add: groupTicketsByAssignee_step_grouping [unfolded grouping_of_def])
  then show ?thesis
    by (simp add: groupTicketsByAssignee_def grouping_of_def)
qed

lemma js_or_Nil [simp]: "js_or s [] = s"
  by (simp add: js_or_def)

lemma push_bucket_for_v1:
  "assignee t = a \<Longrightarrow> push_ticket_v1 t (bucket_for_v1 a ts) = bucket_for_v1 a (ts @ [t])"
  by (simp add: push_ticket_v1_def bucket_for_v1_def is_story_def)

lemma bucket_for_v1_other:
  "a \<noteq> assignee t \<Longrightarrow> bucket_for_v1 a (ts @ [t]) = bucket_for_v1 a ts"
  by (auto simp: bucket_for_v1_def)

lemma bucket_for_v1_fresh:
  "a \<notin> assignee ` set ts \<Longrightarrow> bucket_for_v1 a ts = empty_bucket"
  by (auto simp: bucket_for_v1_def empty_bucket_def filter_empty_conv)

lemma groupTicketsByAssignee_v1_step_upsert:
  "groupTicketsByAssignee_v1_step acc t = upsert acc (assignee t) empty_bucket (push_ticket_v1 t)"
  by (simp add: groupTicketsByAssignee_v1_step_def upsert_def)

lemma groupTicketsByAssignee_v1_eq:
  "groupTicketsByAssignee_v1 ts =
     (if \<exists>t \<in> set ts. inherited_key (assignee t) then Inl TypeError
      else Inr (grouping_of_v1 ts))"
proof -
  have step: "groupTicketsByAssignee_v1_step (keyed assignee bucket_for_v1 ts) t =
     (if inherited_key (assignee t) \<and> assignee t \<notin> assignee ` set ts then Inl TypeError
      else Inr (keyed assignee bucket_for_v1 (ts @ [t])))" for ts t
    unfolding groupTicketsByAssignee_v1_step_upsert
    by (rule upsert_keyed)
       (simp_all add: bucket_for_v1_fresh push_bucket_for_v1 bucket_for_v1_other)
  have "reduce groupTicketsByAssignee_v1_step ts (keyed assignee bucket_for_v1 []) =
          (if \<exists>t \<in> set ts. inherited_key (assignee t) then Inl TypeError
           else Inr (keyed assignee bucket_for_v1 ([] @ ts)))"
    by (rule reduce_keyed) (simp_all add: step)
  then show ?thesis
    by (simp add: groupTicketsByAssignee_v1_def grouping_of_v1_def)
qed

lemma tasksByParent_step_upsert:
  "tasksByParent_step acc t = upsert acc (parent_of t) [] (\<lambda>ts. ts @ [t])"
  by (simp add: tasksByParent_step_def upsert_def Let_def split: js_prop.splits)

lemma with_parent_fresh: "p \<notin> parent_of ` set ts \<Longrightarrow> with_parent p ts = []"
  by (auto simp: with_parent_def filter_empty_conv)

lemma with_parent_same: "parent_of t = p \<Longrightarrow> with_parent p (ts @ [t]) = with_parent p ts @ [t]"
  by (simp add: with_parent_def)

lemma with_parent_other: "p \<noteq> parent_of t \<Longrightarrow> with_parent p (ts @ [t]) = with_parent p ts"
  by (auto simp: with_parent_def)

lemma tasksByParent_eq:
  "tasksByParent b =
     (if \<exists>t \<in> set (tasks b). inherited_key (parent_of t) then Inl TypeError
      else Inr (tasks_by_parent_of (tasks b)))"
proof -
  have step: "tasksByParent_step (keyed parent_of with_parent ts) t =
     (if inherited_key (parent_of t) \<and> parent_of t \<notin> parent_of ` set ts then Inl TypeError
      else Inr (keyed parent_of with_parent (ts @ [t])))" for ts t
    unfolding tasksByParent_step_upsert
    by (rule upsert_keyed) (simp_all add: with_parent_fresh with_parent_same with_parent_other)
  have "reduce tasksByParent_step (tasks b) (keyed parent_of with_parent []) =
          (if \<exists>t \<in> set (tasks b). inherited_key (parent_of t) then Inl TypeError
           else Inr (keyed parent_of with_parent ([] @ tasks b)))"
    by (rule reduce_keyed) (simp_all add: step)
  then show ?thesis
    by (simp add: tasksByParent_def tasks_by_parent_of_def)
qed

text \<open>A list split by key: the parts add up to the list.\<close>

lemma filter_key_split:
  "a \<notin> set ks \<Longrightarrow>
   filter_mset (\<lambda>t. (f t = a \<or> f t \<in> set ks) \<and> P t) M =
   filter_mset (\<lambda>t. f t = a \<and> P t) M + filter_mset (\<lambda>t. f t \<in> set ks \<and> P t) M"
  by (rule multiset_eqI) auto

lemma partition_by_key:
  "distinct ks \<Longrightarrow>
   (\<Sum>a\<leftarrow>ks. filter_mset (\<lambda>t. f t = a \<and> P t) M) = filter_mset (\<lambda>t. f t \<in> set ks \<and> P t) M"
proof (induction ks)
  case Nil
  then show ?case by simp
next
  case (Cons a ks)
  then show ?case by (simp add: filter_key_split)
qed

lemma partition_by_first_seen:
  "(\<Sum>a\<leftarrow>first_seen (map f ts). filter_mset (\<lambda>t. f t = a \<and> P t) (mset ts)) = filter_mset P (mset ts)"
proof -
  have "(\<Sum>a\<leftarrow>first_seen (map f ts). filter_mset (\<lambda>t. f t = a \<and> P t) (mset ts)) =
        filter_mset (\<lambda>t. f t \<in> set (first_seen (map f ts)) \<and> P t) (mset ts)"
    by (rule partition_by_key) simp
  also have "\<dots> = filter_mset P (mset ts)"
    by (rule filter_mset_cong) auto
  finally show ?thesis .
qed

lemma mset_concat_map: "mset (concat (map g ks)) = (\<Sum>k\<leftarrow>ks. mset (g k))"
  by (induction ks) auto

lemma size_sum_list_mset: "size (\<Sum>k\<leftarrow>ks. (M k :: 'a multiset)) = (\<Sum>k\<leftarrow>ks. size (M k))"
  by (induction ks) auto

lemma filter_mset_split:
  "filter_mset (\<lambda>t. A t \<and> P t) M + filter_mset (\<lambda>t. A t \<and> \<not> P t) M = filter_mset (\<lambda>t. A t \<and> True) M"
  by (rule multiset_eqI) auto

lemma grouped_tickets_grouping: "mset (grouped_tickets (grouping_of ts)) = mset ts"
proof -
  have "mset (grouped_tickets (grouping_of ts)) =
          (\<Sum>a\<leftarrow>first_seen (map assignee_of ts). filter_mset (\<lambda>t. assignee_of t = a \<and> True) (mset ts))"
    by (simp add: grouped_tickets_def grouping_of_def keyed_def mset_concat_map comp_def
        bucket_tickets_def bucket_for_def filter_mset_split)
  also have "\<dots> = filter_mset (\<lambda>t. True) (mset ts)"
    by (rule partition_by_first_seen)
  finally show ?thesis by simp
qed

lemma grouped_tickets_grouping_v1: "mset (grouped_tickets (grouping_of_v1 ts)) = mset ts"
proof -
  have "mset (grouped_tickets (grouping_of_v1 ts)) =
          (\<Sum>a\<leftarrow>first_seen (map assignee ts). filter_mset (\<lambda>t. assignee t = a \<and> True) (mset ts))"
    by (simp add: grouped_tickets_def grouping_of_v1_def keyed_def mset_concat_map comp_def
        bucket_tickets_def bucket_for_v1_def filter_mset_split)
  also have "\<dots> = filter_mset (\<lambda>t. True) (mset ts)"
    by (rule partition_by_first_seen)
  finally show ?thesis by simp
qed

lemma bucket_stories_total_grouping:
  "bucket_stories_total (grouping_of ts) = length (filter is_story ts)"
proof -
  have "bucket_stories_total (grouping_of ts) =
          size (\<Sum>a\<leftarrow>first_seen (map assignee_of ts). filter_mset (\<lambda>t. assignee_of t = a \<and> is_story t) (mset ts))"
    by (simp add: bucket_stories_total_def grouping_of_def keyed_def comp_def bucket_for_def
        size_sum_list_mset flip: mset_filter)
  also have "\<dots> = size (filter_mset is_story (mset ts))"
    by (simp only: partition_by_first_seen)
  finally show ?thesis by (simp flip: mset_filter)
qed

lemma bucket_tasks_total_grouping:
  "bucket_tasks_total (grouping_of ts) = length (filter (\<lambda>t. \<not> is_story t) ts)"
proof -
  have "bucket_tasks_total (grouping_of ts) =
          size (\<Sum>a\<leftarrow>first_seen (map assignee_of ts). filter_mset (\<lambda>t. assignee_of t = a \<and> \<not> is_story t) (mset ts))"
    by (simp add: bucket_tasks_total_def grouping_of_def keyed_def comp_def bucket_for_def
        size_sum_list_mset flip: mset_filter)
  also have "\<dots> = size (filter_mset (\<lambda>t. \<not> is_story t) (mset ts))"
    by (simp only: partition_by_first_seen)
  finally show ?thesis by (simp flip: mset_filter)
qed

lemma bucket_stories_total_grouping_v1:
  "bucket_stories_total (grouping_of_v1 ts) = length (filter is_story ts)"
proof -
  have "bucket_stories_total (grouping_of_v1 ts) =
          size (\<Sum>a\<leftarrow>first_seen (map assignee ts). filter_mset (\<lambda>t. assignee t = a \<and> is_story t) (mset ts))"
    by (simp add: bucket_stories_total_def grouping_of_v1_def keyed_def comp_def bucket_for_v1_def
        size_sum_list_mset flip: mset_filter)
  also have "\<dots> = size (filter_mset is_story (mset ts))"
    by (simp only: partition_by_first_seen)
  finally show ?thesis by (simp flip: mset_filter)
qed

section \<open>Stats and buckets\<close>

lemmas string_eval = toLowerCase_def toLowerCase_char_def upper_chars_def lower_chars_def

lemma example_ticket_sel [simp]:
  "type' (example_ticket k ty a p) = ty"
  "assignee (example_ticket k ty a p) = a"
  "key (example_ticket k ty a p) = k"
  "parentKey (example_ticket k ty a p) = p"
  by (simp_all add: example_ticket_def)

lemma bug_ticket_kind: "\<not> is_story bug_ticket" "\<not> is_task bug_ticket"
  by (simp_all add: is_story_def is_task_def bug_ticket_def string_eval)

lemma story_ticket_kind: "is_story story_ticket" "\<not> is_task story_ticket"
  by (simp_all add: is_story_def is_task_def story_ticket_def string_eval)

lemma task_ticket_kind: "\<not> is_story task_ticket" "is_task task_ticket"
  by (simp_all add: is_story_def is_task_def task_ticket_def string_eval)

lemma alice_not_inherited: "\<not> inherited_key ''Alice''"
  by (simp add: inherited_key_def object_prototype_keys_def)

lemma example_assignees [simp]:
  "assignee_of bug_ticket = ''Alice''" "assignee_of story_ticket = ''Alice''"
  "assignee_of task_ticket = ''Alice''"
  by (simp_all add: assignee_of_def js_or_def bug_ticket_def story_ticket_def task_ticket_def)

lemma is_story_fun: "(\<lambda>t. js_includes (toLowerCase (type' t)) ''story'') = is_story"
  by (simp add: fun_eq_iff is_story_def)

lemma is_task_fun: "(\<lambda>t. js_includes (toLowerCase (type' t)) ''task'') = is_task"
  by (simp add: fun_eq_iff is_task_def)

lemma not_story_fun: "(\<lambda>t. \<not> js_includes (toLowerCase (type' t)) ''story'') = (\<lambda>t. \<not> is_story t)"
  by (simp add: fun_eq_iff is_story_def)

lemma bucket_tasks_total_grouping_v1:
  "bucket_tasks_total (grouping_of_v1 ts) = length (filter (\<lambda>t. \<not> is_story t) ts)"
proof -
  have "bucket_tasks_total (grouping_of_v1 ts) =
          size (\<Sum>a\<leftarrow>first_seen (map assignee ts). filter_mset (\<lambda>t. assignee t = a \<and> \<not> is_story t) (mset ts))"
    by (simp add: bucket_tasks_total_def grouping_of_v1_def keyed_def comp_def bucket_for_v1_def
        size_sum_list_mset flip: mset_filter)
  also have "\<dots> = size (filter_mset (\<lambda>t. \<not> is_story t) (mset ts))"
    by (simp only: partition_by_first_seen)
  finally show ?thesis by (simp flip: mset_filter)
qed

text \<open>
  Claim C10. The stats are filters over the ticket list, not counts over the buckets.
  Whenever the grouping returns, in the refactored variant and in the first one: the
  \<open>userStories\<close> stat counts the tickets whose lower-cased type contains "story", and so
  do the \<open>userStories\<close> buckets; the \<open>tasks\<close> stat counts the tickets whose lower-cased type
  contains "task", while the \<open>tasks\<close> buckets hold every ticket whose type does not contain
  "story". For the single ticket of type "Bug" the \<open>tasks\<close> stat is 0, the buckets hold 1
  task, and the two stats do not add up to \<open>totalTickets\<close>.
\<close>

theorem stats_are_independent_filters:
  "(groupTicketsByAssignee tickets = Inr g \<longrightarrow>
      totalTickets (render_stats tickets g) = length tickets \<and>
      userStories' (render_stats tickets g) =
        length (filter (\<lambda>t. js_includes (toLowerCase (type' t)) ''story'') tickets) \<and>
      tasks' (render_stats tickets g) =
        length (filter (\<lambda>t. js_includes (toLowerCase (type' t)) ''task'') tickets) \<and>
      bucket_stories_total g =
        length (filter (\<lambda>t. js_includes (toLowerCase (type' t)) ''story'') tickets) \<and>
      bucket_tasks_total g =
        length (filter (\<lambda>t. \<not> js_includes (toLowerCase (type' t)) ''story'') tickets)) \<and>
   (groupTicketsByAssignee_v1 tickets = Inr g1 \<longrightarrow>
      totalTickets (calculateStats tickets) = length tickets \<and>
      userStories' (calculateStats tickets) =
        length (filter (\<lambda>t. js_includes (toLowerCase (type' t)) ''story'') tickets) \<and>
      tasks' (calculateStats tickets) =
        length (filter (\<lambda>t. js_includes (toLowerCase (type' t)) ''task'') tickets) \<and>
      bucket_stories_total g1 =
        length (filter (\<lambda>t. js_includes (toLowerCase (type' t)) ''story'') tickets) \<and>
      bucket_tasks_total g1 =
        length (filter (\<lambda>t. \<not> js_includes (toLowerCase (type' t)) ''story'') tickets)) \<and>
   groupTicketsByAssignee [bug_ticket] = Inr (grouping_of [bug_ticket]) \<and>
   tasks' (render_stats [bug_ticket] (grouping_of [bug_ticket])) = 0 \<and>
   bucket_tasks_total (grouping_of [bug_ticket]) = 1 \<and>
   userStories' (render_stats [bug_ticket] (grouping_of [bug_ticket])) = 0 \<and>
   totalTickets (render_stats [bug_ticket] (grouping_of [bug_ticket])) = 1 \<and>
   groupTicketsByAssignee_v1 [bug_ticket] = Inr (grouping_of_v1 [bug_ticket]) \<and>
   tasks' (calculateStats [bug_ticket]) = 0 \<and>
   bucket_tasks_total (grouping_of_v1 [bug_ticket]) = 1 \<and>
   userStories' (calculateStats [bug_ticket]) = 0 \<and>
   totalTickets (calculateStats [bug_ticket]) = 1"
proof -
  have general: "totalTickets (render_stats tickets g) = length tickets \<and>
      userStories' (render_stats tickets g) =
        length (filter (\<lambda>t. js_includes (toLowerCase (type' t)) ''story'') tickets) \<and>
      tasks' (render_stats tickets g) =
        length (filter (\<lambda>t. js_includes (toLowerCase (type' t)) ''task'') tickets) \<and>
      bucket_stories_total g =
        length (filter (\<lambda>t. js_includes (toLowerCase (type' t)) ''story'') tickets) \<and>
      bucket_tasks_total g =
        length (filter (\<lambda>t. \<not> js_includes (toLowerCase (type' t)) ''story'') tickets)"
    if "groupTicketsByAssignee tickets = Inr g"
  proof -
    from that have "g = grouping_of tickets"
      by (simp add: groupTicketsByAssignee_eq split: if_splits)
    then show ?thesis
      by (simp add: render_stats_def bucket_stories_total_grouping bucket_tasks_total_grouping
          is_story_fun is_task_fun not_story_fun)
  qed
  have general_v1: "totalTickets (calculateStats tickets) = length tickets \<and>
      userStories' (calculateStats tickets) =
        length (filter (\<lambda>t. js_includes (toLowerCase (type' t)) ''story'') tickets) \<and>
      tasks' (calculateStats tickets) =
        length (filter (\<lambda>t. js_includes (toLowerCase (type' t)) ''task'') tickets) \<and>
      bucket_stories_total g1 =
        length (filter (\<lambda>t. js_includes (toLowerCase (type' t)) ''story'') tickets) \<and>
      bucket_tasks_total g1 =
        length (filter (\<lambda>t. \<not> js_includes (toLowerCase (type' t)) ''story'') tickets)"
    if "groupTicketsByAssignee_v1 tickets = Inr g1"
  proof -
    from that have "g1 = grouping_of_v1 tickets"
      by (simp add: groupTicketsByAssignee_v1_eq split: if_splits)
    then show ?thesis
      by (simp add: calculateStats_def bucket_stories_total_grouping_v1
          bucket_tasks_total_grouping_v1 is_story_fun not_story_fun)
  qed
  have bug: "groupTicketsByAssignee [bug_ticket] = Inr (grouping_of [bug_ticket])"
    by (simp add: groupTicketsByAssignee_eq alice_not_inherited)
  have bug_v1: "groupTicketsByAssignee_v1 [bug_ticket] = Inr (grouping_of_v1 [bug_ticket])"
    by (simp add: groupTicketsByAssignee_v1_eq alice_not_inherited bug_ticket_def)
  have stats: "tasks' (render_stats [bug_ticket] (grouping_of [bug_ticket])) = 0"
      "userStories' (render_stats [bug_ticket] (grouping_of [bug_ticket])) = 0"
      "totalTickets (render_stats [bug_ticket] (grouping_of [bug_ticket])) = 1"
      "tasks' (calculateStats [bug_ticket]) = 0"
      "userStories' (calculateStats [bug_ticket]) = 0"
      "totalTickets (calculateStats [bug_ticket]) = 1"
    by (simp_all add: render_stats_def calculateStats_def is_story_fun is_task_fun
        bug_ticket_kind)
  have buckets: "bucket_tasks_total (grouping_of [bug_ticket]) = 1"
      "bucket_tasks_total (grouping_of_v1 [bug_ticket]) = 1"
    by (simp_all add: bucket_tasks_total_grouping bucket_tasks_total_grouping_v1 bug_ticket_kind)
  from general general_v1 bug bug_v1 stats buckets show ?thesis
    by blast
qed

theorem stats_are_independent_filters_witness:
  "groupTicketsByAssignee [story_ticket, task_ticket, bug_ticket] =
     Inr (grouping_of [story_ticket, task_ticket, bug_ticket]) \<and>
   groupTicketsByAssignee_v1 [story_ticket, task_ticket, bug_ticket] =
     Inr (grouping_of_v1 [story_ticket, task_ticket, bug_ticket]) \<and>
   totalTickets (render_stats [story_ticket, task_ticket, bug_ticket]
     (grouping_of [story_ticket, task_ticket, bug_ticket])) = 3 \<and>
   userStories' (render_stats [story_ticket, task_ticket, bug_ticket]
     (grouping_of [story_ticket, task_ticket, bug_ticket])) = 1 \<and>
   tasks' (render_stats [story_ticket, task_ticket, bug_ticket]
     (grouping_of [story_ticket, task_ticket, bug_ticket])) = 1 \<and>
   bucket_stories_total (grouping_of [story_ticket, task_ticket, bug_ticket]) = 1 \<and>
   bucket_tasks_total (grouping_of [story_ticket, task_ticket, bug_ticket]) = 2 \<and>
   totalTickets (calculateStats [story_ticket, task_ticket, bug_ticket]) = 3 \<and>
   userStories' (calculateStats [story_ticket, task_ticket, bug_ticket]) = 1 \<and>
   tasks' (calculateStats [story_ticket, task_ticket, bug_ticket]) = 1 \<and>
   bucket_stories_total (grouping_of_v1 [story_ticket, task_ticket, bug_ticket]) = 1 \<and>
   bucket_tasks_total (grouping_of_v1 [story_ticket, task_ticket, bug_ticket]) = 2"
proof -
  let ?ts = "[story_ticket, task_ticket, bug_ticket]"
  have g: "groupTicketsByAssignee ?ts = Inr (grouping_of ?ts)"
    by (simp add: groupTicketsByAssignee_eq alice_not_inherited)
  have g1: "groupTicketsByAssignee_v1 ?ts = Inr (grouping_of_v1 ?ts)"
    by (simp add: groupTicketsByAssignee_v1_eq alice_not_inherited story_ticket_def
        task_ticket_def bug_ticket_def)
  have n: "length (filter (\<lambda>t. js_includes (toLowerCase (type' t)) ''story'') ?ts) = 1"
      "length (filter (\<lambda>t. js_includes (toLowerCase (type' t)) ''task'') ?ts) = 1"
      "length (filter (\<lambda>t. \<not> js_includes (toLowerCase (type' t)) ''story'') ?ts) = 2"
    by (simp_all add: is_story_fun is_task_fun not_story_fun story_ticket_kind task_ticket_kind
        bug_ticket_kind)
  from stats_are_independent_filters [of ?ts "grouping_of ?ts" "grouping_of_v1 ?ts"] g g1 n
  show ?thesis by simp
qed

section \<open>Grouping by sprint; partition\<close>

lemma sprint_bucket_step_eq: "sprint_bucket_step m t = groupTicketsByAssignee_step m t"
  by (simp add: sprint_bucket_step_def groupTicketsByAssignee_step_def)

lemma grouping_of_Nil [simp]: "grouping_of [] = []"
  by (simp add: grouping_of_def)

lemma in_sprint_fresh: "s \<notin> sprint_of ` set ts \<Longrightarrow> in_sprint s ts = []"
  by (auto simp: in_sprint_def filter_empty_conv)

lemma in_sprint_same: "sprint_of t = s \<Longrightarrow> in_sprint s (ts @ [t]) = in_sprint s ts @ [t]"
  by (simp add: in_sprint_def)

lemma in_sprint_other: "s \<noteq> sprint_of t \<Longrightarrow> in_sprint s (ts @ [t]) = in_sprint s ts"
  by (auto simp: in_sprint_def)

lemma groupTicketsBySprintAndAssignee_step_grouping:
  "groupTicketsBySprintAndAssignee_step (sprint_grouping_of ts) t =
     (if inherited_key (sprint_of t) \<and> sprint_of t \<notin> sprint_of ` set ts then Inl BuiltinObjectUse
      else if inherited_key (assignee_of t) \<and>
              assignee_of t \<notin> assignee_of ` set (in_sprint (sprint_of t) ts) then Inl TypeError
      else Inr (sprint_grouping_of (ts @ [t])))"
proof -
  let ?s = "sprint_of t"
  let ?val = "\<lambda>s ts. grouping_of (in_sprint s ts)"
  have set: "js_set (sprint_grouping_of ts) ?s (grouping_of (in_sprint ?s ts @ [t])) =
               sprint_grouping_of (ts @ [t])"
    unfolding sprint_grouping_of_def
    by (rule js_set_keyed) (simp_all add: in_sprint_same in_sprint_other)
  have get: "js_get (sprint_grouping_of ts) ?s =
               (if ?s \<in> sprint_of ` set ts then Own (grouping_of (in_sprint ?s ts))
                else if inherited_key ?s then Inherited else Absent)"
    by (simp add: sprint_grouping_of_def js_get_keyed)
  show ?thesis
  proof (cases "?s \<in> sprint_of ` set ts")
    case True
    then show ?thesis
      using set
      by (simp add: groupTicketsBySprintAndAssignee_step_def Let_def get sprint_bucket_step_eq
          groupTicketsByAssignee_step_grouping)
  next
    case False
    then have "in_sprint ?s ts = []" by (rule in_sprint_fresh)
    with False show ?thesis
      using set groupTicketsByAssignee_step_grouping [of "[]" t]
      by (simp add: groupTicketsBySprintAndAssignee_step_def Let_def get sprint_bucket_step_eq)
  qed
qed

lemma reduce_sprint_total:
  "\<forall>t \<in> set ts. \<not> inherited_key (sprint_of t) \<and> \<not> inherited_key (assignee_of t) \<Longrightarrow>
   reduce groupTicketsBySprintAndAssignee_step ts (sprint_grouping_of done) =
     Inr (sprint_grouping_of (done @ ts))"
proof (induction ts arbitrary: "done")
  case Nil
  then show ?case by simp
next
  case (Cons t ts)
  then show ?case
    by (simp add: groupTicketsBySprintAndAssignee_step_grouping)
qed

lemma sprint_grouping_of_Nil [simp]: "sprint_grouping_of [] = []"
  by (simp add: sprint_grouping_of_def)

lemma groupTicketsBySprintAndAssignee_total:
  "\<forall>t \<in> set ts. \<not> inherited_key (sprint_of t) \<and> \<not> inherited_key (assignee_of t) \<Longrightarrow>
   groupTicketsBySprintAndAssignee ts = Inr (sprint_grouping_of ts)"
  using reduce_sprint_total [of ts "[]"]
  by (simp add: groupTicketsBySprintAndAssignee_def)

lemma sprint_grouped_tickets_grouping:
  "mset (sprint_grouped_tickets (sprint_grouping_of ts)) = mset ts"
proof -
  have "mset (sprint_grouped_tickets (sprint_grouping_of ts)) =
          (\<Sum>s\<leftarrow>first_seen (map sprint_of ts). filter_mset (\<lambda>t. sprint_of t = s \<and> True) (mset ts))"
    by (simp add: sprint_grouped_tickets_def sprint_grouping_of_def keyed_def mset_concat_map
        comp_def grouped_tickets_grouping in_sprint_def)
  also have "\<dots> = filter_mset (\<lambda>t. True) (mset ts)"
    by (rule partition_by_first_seen)
  finally show ?thesis by simp
qed

text \<open>Where a grouper returns, its buckets hold every ticket once.\<close>

lemma grouping_of_keys: "distinct (map fst (grouping_of ts))"
  by (simp add: grouping_of_def keyed_keys)

lemma grouping_of_v1_keys: "distinct (map fst (grouping_of_v1 ts))"
  by (simp add: grouping_of_v1_def keyed_keys)

lemma sprint_grouping_of_keys: "distinct (map fst (sprint_grouping_of ts))"
  by (simp add: sprint_grouping_of_def keyed_keys)

lemma groupTicketsByAssignee_partitions:
  assumes "groupTicketsByAssignee ts = Inr g"
  shows "g = grouping_of ts \<and> distinct (map fst g) \<and> mset (grouped_tickets g) = mset ts"
proof -
  from assms have "g = grouping_of ts"
    by (simp add: groupTicketsByAssignee_eq split: if_splits)
  then show ?thesis
    by (simp add: grouping_of_keys grouped_tickets_grouping)
qed

lemma groupTicketsByAssignee_v1_partitions:
  assumes "groupTicketsByAssignee_v1 ts = Inr g"
  shows "g = grouping_of_v1 ts \<and> distinct (map fst g) \<and> mset (grouped_tickets g) = mset ts"
proof -
  from assms have "g = grouping_of_v1 ts"
    by (simp add: groupTicketsByAssignee_v1_eq split: if_splits)
  then show ?thesis
    by (simp add: grouping_of_v1_keys grouped_tickets_grouping_v1)
qed

lemma groupTicketsBySprintAndAssignee_partitions:
  assumes "\<forall>t \<in> set ts. \<not> inherited_key (sprint_of t) \<and> \<not> inherited_key (assignee_of t)"
  shows "groupTicketsBySprintAndAssignee ts = Inr (sprint_grouping_of ts) \<and>
         distinct (map fst (sprint_grouping_of ts)) \<and>
         mset (sprint_grouped_tickets (sprint_grouping_of ts)) = mset ts"
  using assms
  by (simp add: groupTicketsBySprintAndAssignee_total sprint_grouping_of_keys
      sprint_grouped_tickets_grouping)

lemma grouping_returns_without_inherited_keys:
  "\<forall>t \<in> set ts. \<not> inherited_key (assignee_of t) \<Longrightarrow>
   groupTicketsByAssignee ts = Inr (grouping_of ts)"
  by (simp add: groupTicketsByAssignee_eq)

lemma constructor_inherited: "inherited_key ''constructor''"
  by (simp add: inherited_key_def object_prototype_keys_def)

text \<open>
  Claim C2. Where the grouper returns, it partitions the tickets (the three lemmas
  above). It does not return for every ticket list: a ticket whose assignee is the name
  of a property inherited from \<open>Object.prototype\<close>, such as "constructor", finds
  \<open>acc[assignee]\<close> truthy, gets no bucket, and the push on the missing list throws a
  \<open>TypeError\<close>, in the refactored variant and in the first one.
\<close>

theorem grouping_throws_at_inherited_assignee:
  "groupTicketsByAssignee [constructor_ticket] = Inl TypeError \<and>
   groupTicketsByAssignee_v1 [constructor_ticket] = Inl TypeError"
  by (simp add: groupTicketsByAssignee_def groupTicketsByAssignee_step_def
      groupTicketsByAssignee_v1_def groupTicketsByAssignee_v1_step_def
      constructor_ticket_def example_ticket_def assignee_of_def js_or_def js_get_def
      object_prototype_keys_def)

section \<open>Tasks by parent\<close>

lemma parent_of_standalone: "parent_of t = ''standalone'' \<longleftrightarrow> unlinked t"
  by (auto simp: parent_of_def opt_or_def js_or_def unlinked_def split: option.splits)

lemma parent_of_linked: "\<not> unlinked t \<Longrightarrow> parentKey t = Some (parent_of t)"
  by (auto simp: parent_of_def opt_or_def js_or_def unlinked_def split: option.splits)

lemma parent_of_eq_linked:
  "\<not> unlinked t \<Longrightarrow> parent_of u = parent_of t \<longleftrightarrow> parentKey u = Some (parent_of t)"
  by (auto simp: parent_of_def opt_or_def js_or_def unlinked_def split: option.splits)

lemma standalone_not_inherited: "\<not> inherited_key ''standalone''"
  by (simp add: inherited_key_def object_prototype_keys_def)

lemma js_get_tasks_by_parent:
  "js_get (tasks_by_parent_of ts) k =
     (if k \<in> parent_of ` set ts then Own (with_parent k ts)
      else if inherited_key k then Inherited else Absent)"
  by (simp add: tasks_by_parent_of_def js_get_keyed)

lemma tasksByParent_returns:
  "tasksByParent b = Inr tbp \<Longrightarrow> tbp = tasks_by_parent_of (tasks b)"
  by (simp add: tasksByParent_eq split: if_splits)

lemma standalone_tasks_of:
  "standalone_tasks (tasks_by_parent_of ts) =
     (if \<exists>t \<in> set ts. unlinked t then Some (filter unlinked ts) else None)"
proof -
  have "(\<exists>t \<in> set ts. unlinked t) \<longleftrightarrow> (\<exists>t \<in> set ts. ''standalone'' = parent_of t)"
    by (simp add: parent_of_standalone [symmetric] eq_commute)
  then have "''standalone'' \<in> parent_of ` set ts \<longleftrightarrow> (\<exists>t \<in> set ts. unlinked t)"
    by (simp add: image_iff)
  moreover have "with_parent ''standalone'' ts = filter unlinked ts"
    by (simp add: with_parent_def parent_of_standalone)
  ultimately show ?thesis
    by (simp add: standalone_tasks_def js_get_tasks_by_parent standalone_not_inherited)
qed

lemma story_rows_of:
  "map_throw (story_row (tasks_by_parent_of ts)) stories = Inr rows \<Longrightarrow>
   rows = map (\<lambda>s. (s, if \<exists>t \<in> set ts. parent_of t = key s
                          then Some (filter (\<lambda>t. parent_of t = key s) ts) else None)) stories"
proof (induction stories arbitrary: rows)
  case Nil
  then show ?case by simp
next
  case (Cons s stories)
  from Cons.prems obtain r rest where
    row: "story_row (tasks_by_parent_of ts) s = Inr r" and
    rest: "map_throw (story_row (tasks_by_parent_of ts)) stories = Inr rest" and
    rows: "rows = r # rest"
    by (auto split: sum.splits)
  have "key s \<in> parent_of ` set ts \<longleftrightarrow> (\<exists>t \<in> set ts. parent_of t = key s)"
    by (simp add: image_iff eq_commute)
  with row have "r = (s, if \<exists>t \<in> set ts. parent_of t = key s
                        then Some (filter (\<lambda>t. parent_of t = key s) ts) else None)"
    by (auto simp: story_row_def related_tasks_def js_get_tasks_by_parent with_parent_def
        split: if_splits)
  with Cons.IH [OF rest] rows show ?case by simp
qed

lemma story_rows_return:
  "\<forall>s \<in> set stories. \<not> inherited_key (key s) \<Longrightarrow>
   \<exists>rows. map_throw (story_row (tasks_by_parent_of ts)) stories = Inr rows"
proof (induction stories)
  case Nil
  then show ?case by simp
next
  case (Cons s stories)
  then obtain rest where "map_throw (story_row (tasks_by_parent_of ts)) stories = Inr rest"
    by auto
  moreover from Cons.prems have "\<exists>r. story_row (tasks_by_parent_of ts) s = Inr r"
    by (simp add: story_row_def related_tasks_def js_get_tasks_by_parent)
  ultimately show ?case
    by auto
qed

text \<open>
  Claim C1, as amended. The renderer keys a task by \<open>t.parentKey || 'standalone'\<close> and
  never compares the parent key with the keys of the stories. When the partition
  returns, the "standalone" bucket holds exactly the tasks of the assignee bucket whose
  \<open>parentKey\<close> is absent, empty or literally "standalone", in feed order (and there is no
  such bucket when there is no such task); every other task lies in the bucket named by
  its \<open>parentKey\<close>. When the card is built, its "Standalone Tasks" block shows the
  standalone bucket, and each story shows as related tasks the bucket named by the key
  of the story: the tasks of the assignee bucket whose parent is that key. The card is
  built whenever no story has a key named like a property inherited from
  \<open>Object.prototype\<close>.
\<close>

theorem standalone_bucket_holds_unlinked_tasks:
  assumes "tasksByParent b = Inr tbp"
  shows "standalone_tasks tbp =
           (if \<exists>t \<in> set (tasks b). unlinked t then Some (filter unlinked (tasks b)) else None) \<and>
         (\<forall>t \<in> set (tasks b). \<not> unlinked t \<longrightarrow>
            (\<exists>p. parentKey t = Some p \<and>
                 js_get tbp p = Own (filter (\<lambda>u. parentKey u = Some p) (tasks b)))) \<and>
         (render_card (a, b) = Inr c \<longrightarrow>
            card_assignee c = a \<and>
            card_standalone c =
              (if \<exists>t \<in> set (tasks b). unlinked t then Some (filter unlinked (tasks b))
               else None) \<and>
            card_stories c =
              map (\<lambda>s. (s, if \<exists>t \<in> set (tasks b). parent_of t = key s
                             then Some (filter (\<lambda>t. parent_of t = key s) (tasks b))
                             else None))
                (userStories b)) \<and>
         ((\<forall>s \<in> set (userStories b). \<not> inherited_key (key s)) \<longrightarrow>
            (\<exists>c. render_card (a, b) = Inr c))"
proof -
  from assms have tbp: "tbp = tasks_by_parent_of (tasks b)"
    by (rule tasksByParent_returns)
  have linked: "\<exists>p. parentKey t = Some p \<and>
             js_get tbp p = Own (filter (\<lambda>u. parentKey u = Some p) (tasks b))"
    if "t \<in> set (tasks b)" and "\<not> unlinked t" for t
  proof (intro exI conjI)
    show "parentKey t = Some (parent_of t)"
      using that(2) by (rule parent_of_linked)
    have "with_parent (parent_of t) (tasks b) =
            filter (\<lambda>u. parentKey u = Some (parent_of t)) (tasks b)"
      by (simp add: with_parent_def parent_of_eq_linked [OF that(2)])
    then show "js_get tbp (parent_of t) =
            Own (filter (\<lambda>u. parentKey u = Some (parent_of t)) (tasks b))"
      using that(1) by (simp add: tbp js_get_tasks_by_parent)
  qed
  have card: "card_assignee c = a \<and>
            card_standalone c =
              (if \<exists>t \<in> set (tasks b). unlinked t then Some (filter unlinked (tasks b))
               else None) \<and>
            card_stories c =
              map (\<lambda>s. (s, if \<exists>t \<in> set (tasks b). parent_of t = key s
                             then Some (filter (\<lambda>t. parent_of t = key s) (tasks b))
                             else None))
                (userStories b)"
    if "render_card (a, b) = Inr c"
  proof -
    from that assms obtain rows where
      rows: "map_throw (story_row tbp) (userStories b) = Inr rows" and
      c: "c = \<lparr>card_assignee = a, card_stories = rows, card_standalone = standalone_tasks tbp\<rparr>"
      by (auto simp: render_card_def split: sum.splits)
    from rows have "rows =
        map (\<lambda>s. (s, if \<exists>t \<in> set (tasks b). parent_of t = key s
                       then Some (filter (\<lambda>t. parent_of t = key s) (tasks b)) else None))
          (userStories b)"
      unfolding tbp by (rule story_rows_of)
    with c show ?thesis
      by (simp add: tbp standalone_tasks_of)
  qed
  have returns: "\<exists>c. render_card (a, b) = Inr c"
    if "\<forall>s \<in> set (userStories b). \<not> inherited_key (key s)"
  proof -
    from that obtain rows where "map_throw (story_row tbp) (userStories b) = Inr rows"
      unfolding tbp using story_rows_return by blast
    with assms show ?thesis
      by (simp add: render_card_def)
  qed
  from linked card returns show ?thesis
    by (simp add: tbp standalone_tasks_of)
qed

lemma tasksByParent_mixed:
  "tasksByParent mixed_bucket = Inr [(''PROJ-1'', [task_ticket]), (''standalone'', [loose_task])]"
  by (simp add: tasksByParent_def tasksByParent_step_def mixed_bucket_def parent_of_def
      opt_or_def js_or_def js_get_def object_prototype_keys_def Let_def
      task_ticket_def loose_task_def)

lemma render_card_mixed:
  "render_card (''Alice'', mixed_bucket) =
     Inr \<lparr>card_assignee = ''Alice'',
          card_stories = [(story_ticket, Some [task_ticket])],
          card_standalone = Some [loose_task]\<rparr>"
proof -
  have s: "userStories mixed_bucket = [story_ticket]"
    by (simp add: mixed_bucket_def)
  have k: "key story_ticket = ''PROJ-1''"
    by (simp add: story_ticket_def)
  have r: "related_tasks [(''PROJ-1'', [task_ticket]), (''standalone'', [loose_task])] story_ticket =
             Inr (Some [task_ticket])"
    by (simp add: related_tasks_def js_get_def k)
  have "js_get [(''PROJ-1'', [task_ticket]), (''standalone'', [loose_task])] ''standalone'' =
          Own [loose_task]"
    by (simp add: js_get_def)
  then have t: "standalone_tasks [(''PROJ-1'', [task_ticket]), (''standalone'', [loose_task])] =
             Some [loose_task]"
    by (simp add: standalone_tasks_def)
  show ?thesis
    by (simp add: render_card_def tasksByParent_mixed s story_row_def r t)
qed

theorem standalone_bucket_holds_unlinked_tasks_witness:
  "tasksByParent mixed_bucket = Inr [(''PROJ-1'', [task_ticket]), (''standalone'', [loose_task])] \<and>
   standalone_tasks [(''PROJ-1'', [task_ticket]), (''standalone'', [loose_task])] = Some [loose_task] \<and>
   js_get [(''PROJ-1'', [task_ticket]), (''standalone'', [loose_task])] ''PROJ-1'' = Own [task_ticket] \<and>
   render_card (''Alice'', mixed_bucket) =
     Inr \<lparr>card_assignee = ''Alice'',
          card_stories = [(story_ticket, Some [task_ticket])],
          card_standalone = Some [loose_task]\<rparr> \<and>
   filter unlinked (tasks mixed_bucket) = [loose_task] \<and>
   filter (\<lambda>t. parent_of t = key story_ticket) (tasks mixed_bucket) = [task_ticket]"
proof -
  have u: "unlinked loose_task" "\<not> unlinked task_ticket"
    by (simp_all add: unlinked_def loose_task_def task_ticket_def)
  have p: "parentKey task_ticket = Some ''PROJ-1''" "parentKey loose_task = None"
    by (simp_all add: loose_task_def task_ticket_def)
  have q: "parent_of task_ticket = ''PROJ-1''" "parent_of loose_task = ''standalone''"
      "key story_ticket = ''PROJ-1''"
    by (simp_all add: parent_of_def opt_or_def js_or_def loose_task_def task_ticket_def
        story_ticket_def)
  have m: "tasks mixed_bucket = [task_ticket, loose_task]"
    by (simp add: mixed_bucket_def)
  from standalone_bucket_holds_unlinked_tasks
         [OF tasksByParent_mixed, of "''Alice''"
            "\<lparr>card_assignee = ''Alice'', card_stories = [(story_ticket, Some [task_ticket])],
              card_standalone = Some [loose_task]\<rparr>"]
       render_card_mixed u p q
  show ?thesis
    by (simp add: tasksByParent_mixed m)
qed

text \<open>
  Claim C1 as stated fails: a task of Alice whose \<open>parentKey\<close> "PROJ-99" matches no story
  of her bucket lands in the bucket "PROJ-99"; there is no "standalone" bucket and the
  card shows neither a story row nor a standalone block for it.
\<close>

theorem orphan_task_not_standalone:
  "groupTicketsByAssignee [orphan_task] = Inr [(''Alice'', orphan_bucket)] \<and>
   tasksByParent orphan_bucket = Inr [(''PROJ-99'', [orphan_task])] \<and>
   standalone_tasks [(''PROJ-99'', [orphan_task])] = None \<and>
   render_card (''Alice'', orphan_bucket) =
     Inr \<lparr>card_assignee = ''Alice'', card_stories = [], card_standalone = None\<rparr>"
proof -
  have ns: "\<not> is_story orphan_task"
    by (simp add: is_story_def orphan_task_def string_eval)
  have g: "groupTicketsByAssignee [orphan_task] = Inr [(''Alice'', orphan_bucket)]"
    using ns
    by (simp add: groupTicketsByAssignee_def groupTicketsByAssignee_step_def assignee_of_def
        js_or_def js_get_def object_prototype_keys_def Let_def push_ticket_def empty_bucket_def
        orphan_bucket_def)
       (simp add: orphan_task_def)
  have t: "tasksByParent orphan_bucket = Inr [(''PROJ-99'', [orphan_task])]"
    by (simp add: tasksByParent_def tasksByParent_step_def orphan_bucket_def parent_of_def
        opt_or_def js_or_def js_get_def object_prototype_keys_def Let_def orphan_task_def)
  have "js_get [(''PROJ-99'', [orphan_task])] ''standalone'' = Absent"
    by (simp add: js_get_def object_prototype_keys_def)
  then have s: "standalone_tasks [(''PROJ-99'', [orphan_task])] = None"
    by (simp add: standalone_tasks_def)
  have r: "render_card (''Alice'', orphan_bucket) =
     Inr \<lparr>card_assignee = ''Alice'', card_stories = [], card_standalone = None\<rparr>"
  proof -
    have "userStories orphan_bucket = []"
      by (simp add: orphan_bucket_def)
    then show ?thesis
      by (simp add: render_card_def t s)
  qed
  from g t s r show ?thesis by simp
qed

section \<open>The parser\<close>

lemma key_make_ticket [simp]: "key (make_ticket now item) = item_key item"
  by (simp add: make_ticket_def)

lemma foldl_parse_item:
  "foldl (parse_item now) acc items =
     acc @ map (make_ticket now) (filter (\<lambda>i. item_key i \<noteq> []) items)"
  by (induction items arbitrary: acc) (simp_all add: parse_item_def Let_def)

lemma parseJiraXML_eq:
  "parseJiraXML now xmlDoc =
     map (make_ticket now) (filter (\<lambda>i. item_key i \<noteq> []) (querySelectorAll ''item'' xmlDoc))"
  by (simp add: parseJiraXML_def foldl_parse_item)

lemma length_filter_map_key:
  "length (filter (\<lambda>t. key t = k) (map (make_ticket now) items)) =
     length (filter (\<lambda>i. item_key i = k) items)"
  by (induction items) simp_all

text \<open>
  Claim C3, as amended. The parser emits one record per item that resolves to a non-empty
  key, in feed order, and nothing else: the keys of the output are the non-empty keys of
  the items; the number of records with key \<open>k\<close> is the number of items that resolve to
  \<open>k\<close>; a key that exactly one item resolves to is the key of exactly one record.
\<close>

theorem one_record_per_keyed_item:
  "map key (parseJiraXML now xmlDoc) =
     filter (\<lambda>k. k \<noteq> []) (map item_key (querySelectorAll ''item'' xmlDoc)) \<and>
   (k \<noteq> [] \<longrightarrow>
      length (tickets_with_key k (parseJiraXML now xmlDoc)) = length (items_with_key k xmlDoc)) \<and>
   (k \<noteq> [] \<and> length (items_with_key k xmlDoc) = 1 \<longrightarrow>
      (\<exists>t. tickets_with_key k (parseJiraXML now xmlDoc) = [t]))"
proof -
  let ?items = "querySelectorAll ''item'' xmlDoc"
  have keys: "map key (parseJiraXML now xmlDoc) = filter (\<lambda>k. k \<noteq> []) (map item_key ?items)"
    by (simp add: parseJiraXML_eq filter_map comp_def)
  have count: "length (tickets_with_key k (parseJiraXML now xmlDoc)) = length (items_with_key k xmlDoc)"
    if "k \<noteq> []"
  proof -
    have "filter (\<lambda>i. item_key i = k) (filter (\<lambda>i. item_key i \<noteq> []) ?items) =
            filter (\<lambda>i. item_key i = k) ?items"
      using that by (auto intro: filter_cong)
    then show ?thesis
      by (simp add: tickets_with_key_def items_with_key_def parseJiraXML_eq length_filter_map_key)
  qed
  have one: "\<exists>t. tickets_with_key k (parseJiraXML now xmlDoc) = [t]"
    if "k \<noteq> []" "length (items_with_key k xmlDoc) = 1"
  proof -
    from that count have "length (tickets_with_key k (parseJiraXML now xmlDoc)) = 1" by simp
    then show ?thesis by (simp add: length_Suc_conv)
  qed
  from keys count one show ?thesis by blast
qed

lemma items_of_feed:
  "querySelectorAll ''item'' (feed [keyed_item a, titled_item b, keyed_item c]) =
     [keyed_item a, titled_item b, keyed_item c]"
  by (simp add: querySelectorAll_def feed_def keyed_item_def titled_item_def leaf_def)

lemma item_key_keyed_item: "item_key (keyed_item k) = k"
  by (simp add: item_key_def elemText_def querySelector_def querySelectorAll_def keyed_item_def
      leaf_def opt_or_def js_or_def before_colon_def)

lemma item_key_titled_item: "item_key (titled_item t) = before_colon t"
  by (simp add: item_key_def elemText_def querySelector_def querySelectorAll_def titled_item_def
      leaf_def opt_or_def js_or_def)


lemma items_of_feed2:
  "querySelectorAll ''item'' (feed [keyed_item a, titled_item b]) = [keyed_item a, titled_item b]"
  by (simp add: querySelectorAll_def feed_def keyed_item_def titled_item_def leaf_def)

lemma items_of_feed1:
  "querySelectorAll ''item'' (feed [titled_item b]) = [titled_item b]"
  by (simp add: querySelectorAll_def feed_def titled_item_def leaf_def)

theorem one_record_per_keyed_item_witness:
  "length (items_with_key ''PROJ-1'' (feed [keyed_item ''PROJ-1'', titled_item [], keyed_item ''PROJ-2''])) = 1 \<and>
   length (tickets_with_key ''PROJ-1''
     (parseJiraXML clock (feed [keyed_item ''PROJ-1'', titled_item [], keyed_item ''PROJ-2'']))) = 1 \<and>
   map key (parseJiraXML clock (feed [keyed_item ''PROJ-1'', titled_item [], keyed_item ''PROJ-2''])) =
     [''PROJ-1'', ''PROJ-2'']"
proof -
  let ?doc = "feed [keyed_item ''PROJ-1'', titled_item [], keyed_item ''PROJ-2'']"
  have n: "length (items_with_key ''PROJ-1'' ?doc) = 1"
    by (simp add: items_with_key_def items_of_feed item_key_keyed_item item_key_titled_item
        before_colon_def)
  have k: "filter (\<lambda>k. k \<noteq> []) (map item_key (querySelectorAll ''item'' ?doc)) = [''PROJ-1'', ''PROJ-2'']"
    by (simp add: items_of_feed item_key_keyed_item item_key_titled_item before_colon_def)
  from one_record_per_keyed_item [of clock ?doc "''PROJ-1''"] n k
  show ?thesis by simp
qed

text \<open>
  Claim C3 as stated fails where two items resolve to the same key (here an item with
  the key element "PROJ-1" and one with the title "PROJ-1: Fix login"): the output holds
  two records with that key. The parser has no step that merges or drops duplicates.
\<close>

theorem shared_key_gives_two_records:
  "item_key (keyed_item ''PROJ-1'') = ''PROJ-1'' \<and>
   length (tickets_with_key ''PROJ-1''
     (parseJiraXML clock (feed [keyed_item ''PROJ-1'', titled_item ''PROJ-1: Fix login'']))) = 2"
  by (simp add: tickets_with_key_def parseJiraXML_eq items_of_feed2 item_key_keyed_item
      item_key_titled_item before_colon_def)

lemma before_colon_Nil_iff: "before_colon s = [] \<longleftrightarrow> s = [] \<or> hd s = CHR '':''"
  by (cases s) (auto simp: before_colon_def)

lemma empty_or_hd: "s = [] \<or> hd s = c \<longleftrightarrow> s = [] \<or> (\<exists>r. s = c # r)"
  by (cases s) auto

lemma keyless_iff: "keyless item \<longleftrightarrow> item_key item = []"
  by (auto simp: keyless_def no_text_def item_key_def opt_or_def js_or_def before_colon_Nil_iff
      split: option.splits if_splits)

text \<open>
  Claim C4, as amended. The parser is a total function of the document (no step of the
  loop body can throw on a document node). Its result is the list of the records of
  exactly the items that are not keyless, in feed order. An item is keyless, and its key
  expression empty, exactly when its key element is absent or has no text and its title
  is absent, has no text or starts with a colon; an item with no key element and no or an
  empty title is keyless.
\<close>

theorem keyless_items_are_skipped:
  "parseJiraXML now xmlDoc =
     map (make_ticket now) (filter (\<lambda>i. \<not> keyless i) (querySelectorAll ''item'' xmlDoc)) \<and>
   length (parseJiraXML now xmlDoc) + length (filter keyless (querySelectorAll ''item'' xmlDoc)) =
     length (querySelectorAll ''item'' xmlDoc) \<and>
   (keyless item \<longleftrightarrow> item_key item = []) \<and>
   (keyless item \<longleftrightarrow>
      (elemText ''key'' item = None \<or> elemText ''key'' item = Some []) \<and>
      (elemText ''title'' item = None \<or> elemText ''title'' item = Some [] \<or>
       (\<exists>s. elemText ''title'' item = Some (CHR '':'' # s)))) \<and>
   (elemText ''key'' item = None \<and>
    (elemText ''title'' item = None \<or> elemText ''title'' item = Some []) \<longrightarrow>
      keyless item)"
proof (intro conjI impI)
  show "parseJiraXML now xmlDoc =
     map (make_ticket now) (filter (\<lambda>i. \<not> keyless i) (querySelectorAll ''item'' xmlDoc))"
    by (simp add: parseJiraXML_eq keyless_iff)
next
  have "length (filter (\<lambda>i. \<not> keyless i) (querySelectorAll ''item'' xmlDoc)) +
        length (filter keyless (querySelectorAll ''item'' xmlDoc)) =
        length (querySelectorAll ''item'' xmlDoc)"
    using sum_length_filter_compl [of keyless "querySelectorAll ''item'' xmlDoc"] by simp
  then show "length (parseJiraXML now xmlDoc) +
        length (filter keyless (querySelectorAll ''item'' xmlDoc)) =
        length (querySelectorAll ''item'' xmlDoc)"
    by (simp add: parseJiraXML_eq keyless_iff)
next
  show "keyless item \<longleftrightarrow> item_key item = []"
    by (rule keyless_iff)
next
  show "keyless item \<longleftrightarrow>
      (elemText ''key'' item = None \<or> elemText ''key'' item = Some []) \<and>
      (elemText ''title'' item = None \<or> elemText ''title'' item = Some [] \<or>
       (\<exists>s. elemText ''title'' item = Some (CHR '':'' # s)))"
    by (auto simp: keyless_def no_text_def empty_or_hd split: option.splits)
next
  assume "elemText ''key'' item = None \<and>
    (elemText ''title'' item = None \<or> elemText ''title'' item = Some [])"
  then show "keyless item"
    by (auto simp: keyless_def no_text_def)
qed

lemma elemText_titled_item:
  "elemText ''key'' (titled_item t) = None" "elemText ''title'' (titled_item t) = Some t"
  by (simp_all add: elemText_def querySelector_def querySelectorAll_def titled_item_def leaf_def)

lemma keyless_keyed_item: "keyless (keyed_item k) \<longleftrightarrow> k = []"
  by (simp add: keyless_iff item_key_keyed_item)

theorem keyless_items_are_skipped_witness:
  "elemText ''key'' (titled_item []) = None \<and> elemText ''title'' (titled_item []) = Some [] \<and>
   keyless (titled_item []) \<and> item_key (titled_item []) = [] \<and>
   \<not> keyless (keyed_item ''PROJ-1'') \<and>
   parseJiraXML clock (feed [keyed_item ''PROJ-1'', titled_item [], keyed_item ''PROJ-2'']) =
     [make_ticket clock (keyed_item ''PROJ-1''), make_ticket clock (keyed_item ''PROJ-2'')]"
proof -
  let ?doc = "feed [keyed_item ''PROJ-1'', titled_item [], keyed_item ''PROJ-2'']"
  have e: "elemText ''key'' (titled_item []) = None" "elemText ''title'' (titled_item []) = Some []"
    by (simp_all add: elemText_titled_item)
  from keyless_items_are_skipped [of clock ?doc "titled_item []"] e
  have k: "keyless (titled_item [])" "item_key (titled_item []) = []"
    and p: "parseJiraXML clock ?doc =
      map (make_ticket clock) (filter (\<lambda>i. \<not> keyless i) (querySelectorAll ''item'' ?doc))"
    by auto
  from p k have "parseJiraXML clock ?doc =
     [make_ticket clock (keyed_item ''PROJ-1''), make_ticket clock (keyed_item ''PROJ-2'')]"
    by (simp add: items_of_feed keyless_keyed_item)
  with e k show ?thesis
    by (simp add: keyless_keyed_item)
qed

text \<open>
  Claim C4 as stated fails: the excluded items are not exactly those with no key element
  and an empty title. An item with an empty key element and the non-empty title
  ": Fix login", and an item with no key element and that title, are excluded as well.
\<close>

theorem item_with_colon_title_is_excluded:
  "elemText ''key'' colon_title_item = Some [] \<and>
   elemText ''title'' colon_title_item = Some '': Fix login'' \<and>
   elemText ''key'' (titled_item '': Fix login'') = None \<and>
   elemText ''title'' (titled_item '': Fix login'') = Some '': Fix login'' \<and>
   parseJiraXML clock (feed [colon_title_item, titled_item '': Fix login'']) = []"
  by (simp add: parseJiraXML_def parse_item_def make_ticket_def item_key_def elemText_def
      querySelector_def querySelectorAll_def colon_title_item_def titled_item_def feed_def
      leaf_def opt_or_def js_or_def before_colon_def Let_def)

text \<open>
  Claim C9, as amended. An item whose key element is absent or empty takes as its key the
  title text before the first colon, the whole title when it has no colon. The key is
  empty, and the item dropped, exactly when the key element is absent or empty and the
  title is absent, empty or starts with a colon; every other item is kept.
\<close>

theorem key_falls_back_to_title_prefix:
  "(opt_or (elemText ''key'' item) [] = [] \<longrightarrow>
      item_key item = before_colon (opt_or (elemText ''title'' item) [])) \<and>
   (CHR '':'' \<notin> set s \<longrightarrow> before_colon s = s) \<and>
   (item_key item = [] \<longleftrightarrow>
      opt_or (elemText ''key'' item) [] = [] \<and>
      (opt_or (elemText ''title'' item) [] = [] \<or>
       hd (opt_or (elemText ''title'' item) []) = CHR '':'')) \<and>
   (item \<in> set (querySelectorAll ''item'' xmlDoc) \<and> item_key item \<noteq> [] \<longrightarrow>
      make_ticket now item \<in> set (parseJiraXML now xmlDoc))"
proof (intro conjI impI)
  assume "opt_or (elemText ''key'' item) [] = []"
  then show "item_key item = before_colon (opt_or (elemText ''title'' item) [])"
    by (auto simp: item_key_def opt_or_def js_or_def split: option.splits if_splits)
next
  assume "CHR '':'' \<notin> set s"
  then show "before_colon s = s"
    by (auto simp: before_colon_def)
next
  show "item_key item = [] \<longleftrightarrow>
      opt_or (elemText ''key'' item) [] = [] \<and>
      (opt_or (elemText ''title'' item) [] = [] \<or>
       hd (opt_or (elemText ''title'' item) []) = CHR '':'')"
    by (auto simp: item_key_def opt_or_def js_or_def before_colon_Nil_iff
        split: option.splits if_splits)
next
  assume "item \<in> set (querySelectorAll ''item'' xmlDoc) \<and> item_key item \<noteq> []"
  then show "make_ticket now item \<in> set (parseJiraXML now xmlDoc)"
    by (simp add: parseJiraXML_eq)
qed

theorem key_falls_back_to_title_prefix_witness:
  "opt_or (elemText ''key'' (titled_item ''PROJ-5: Fix login'')) [] = [] \<and>
   item_key (titled_item ''PROJ-5: Fix login'') = ''PROJ-5'' \<and>
   before_colon ''PROJ-6'' = ''PROJ-6'' \<and>
   parseJiraXML clock (feed [titled_item ''PROJ-5: Fix login'']) =
     [make_ticket clock (titled_item ''PROJ-5: Fix login'')]"
proof -
  let ?item = "titled_item ''PROJ-5: Fix login''"
  have k: "opt_or (elemText ''key'' ?item) [] = []" "opt_or (elemText ''title'' ?item) [] = ''PROJ-5: Fix login''"
    by (simp_all add: elemText_titled_item opt_or_def js_or_def)
  have b: "before_colon ''PROJ-5: Fix login'' = ''PROJ-5''"
    by (simp add: before_colon_def)
  have c: "CHR '':'' \<notin> set ''PROJ-6''" by simp
  have p: "parseJiraXML clock (feed [?item]) = [make_ticket clock ?item]"
    by (simp add: parseJiraXML_eq items_of_feed1 item_key_titled_item b)
  from key_falls_back_to_title_prefix [of ?item "''PROJ-6''" "feed [?item]" clock] k b c p
  show ?thesis by simp
qed

text \<open>
  Claim C9 as stated fails: an item with no key element and the non-empty title ":x" has
  an empty text before the first colon, so its key is empty and the guard
  \<open>if (ticket.key)\<close> drops it.
\<close>

theorem title_starting_with_colon_is_dropped:
  "elemText ''key'' (titled_item '':x'') = None \<and>
   elemText ''title'' (titled_item '':x'') = Some '':x'' \<and>
   parseJiraXML clock (feed [titled_item '':x'']) = []"
  by (simp add: elemText_titled_item parseJiraXML_eq items_of_feed1 item_key_titled_item
      before_colon_def)






section \<open>Entity decoding\<close>

text \<open>
  A match of the pattern cannot start before a character \<open>a\<close> and reach it when \<open>a\<close> occurs
  in the pattern only as its first character: the replacement then works on the two
  sides of that character independently. Every entity starts with \<open>&\<close>, and \<open>&\<close> is the first
  character of every pattern and occurs nowhere else in it.
\<close>

lemma prefix_before_boundary:
  assumes "prefix pat (u @ a # r)" and "u \<noteq> []" and "a \<notin> set (tl pat)"
  shows "prefix pat u"
proof -
  from assms(1) consider "prefix pat u" | us where "pat = u @ us" "prefix us (a # r)"
    by (auto simp: prefix_append)
  then show ?thesis
  proof cases
    case 1
    then show ?thesis .
  next
    case 2
    show ?thesis
    proof (cases us)
      case Nil
      with 2 show ?thesis by simp
    next
      case (Cons z zs)
      with 2 have "z = a" by simp
      with 2 Cons assms(2) have "a \<in> set (tl pat)" by (cases u) auto
      with assms(3) show ?thesis by simp
    qed
  qed
qed

lemma replace_all_match:
  "pat \<noteq> [] \<Longrightarrow> replace_all pat rep (pat @ w) = rep @ replace_all pat rep w"
  by (cases pat) simp_all

lemma replace_all_skip:
  "\<not> (pat \<noteq> [] \<and> prefix pat (c # cs)) \<Longrightarrow>
   replace_all pat rep (c # cs) = c # replace_all pat rep cs"
  by auto

lemma replace_all_split:
  assumes a: "a \<notin> set (tl pat)"
  shows "replace_all pat rep (u @ a # r) = replace_all pat rep u @ replace_all pat rep (a # r)"
proof (induction u rule: length_induct)
  case (1 u)
  show ?case
  proof (cases u)
    case Nil
    then show ?thesis by simp
  next
    case (Cons x u')
    show ?thesis
    proof (cases "pat \<noteq> [] \<and> prefix pat u")
      case True
      then obtain w where w: "u = pat @ w" by (auto elim: prefixE)
      with True have "length w < length u" by simp
      with 1 have "replace_all pat rep (w @ a # r) =
                     replace_all pat rep w @ replace_all pat rep (a # r)" by blast
      with True w show ?thesis
        using replace_all_match [of pat rep "w @ a # r"] replace_all_match [of pat rep w]
        by (simp del: replace_all.simps)
    next
      case False
      have "\<not> (pat \<noteq> [] \<and> prefix pat (u @ a # r))"
        using False prefix_before_boundary [OF _ _ a, of u r] Cons by auto
      then have l: "replace_all pat rep (x # (u' @ a # r)) = x # replace_all pat rep (u' @ a # r)"
        using Cons by (intro replace_all_skip) simp
      have m: "replace_all pat rep (x # u') = x # replace_all pat rep u'"
        using False Cons by (intro replace_all_skip) simp
      have "replace_all pat rep (u' @ a # r) =
              replace_all pat rep u' @ replace_all pat rep (a # r)"
        using 1 Cons by simp
      with l m Cons show ?thesis
        by (simp del: replace_all.simps)
    qed
  qed
qed

text \<open>
  Each occurrence of \<open>&lt;\<close>, \<open>&gt;\<close> and \<open>&quot;\<close> is decoded where it stands; so is an
  occurrence of \<open>&amp;\<close> that is not followed by \<open>q\<close>.
\<close>

lemma decode_lt: "decode_entities (u @ ''&lt;'' @ v) = decode_entities u @ ''<'' @ decode_entities v"
  by (simp add: decode_entities_def replace_all_split)

lemma decode_gt: "decode_entities (u @ ''&gt;'' @ v) = decode_entities u @ ''>'' @ decode_entities v"
  by (simp add: decode_entities_def replace_all_split)

lemma decode_quot:
  "decode_entities (u @ ''&quot;'' @ v) = decode_entities u @ [CHR 0x22] @ decode_entities v"
  by (simp add: decode_entities_def replace_all_split)

lemma replace_all_hd:
  "rep \<noteq> [] \<Longrightarrow> hd rep \<noteq> q \<Longrightarrow> v = [] \<or> hd v \<noteq> q \<Longrightarrow>
   replace_all pat rep v = [] \<or> hd (replace_all pat rep v) \<noteq> q"
  by (cases v) auto

lemma decode_amp:
  assumes "v = [] \<or> hd v \<noteq> CHR ''q''"
  shows "decode_entities (u @ ''&amp;'' @ v) = decode_entities u @ ''&'' @ decode_entities v"
proof -
  let ?w = "replace_all ''&amp;'' ''&'' (replace_all ''&gt;'' ''>'' (replace_all ''&lt;'' ''<'' v))"
  have "?w = [] \<or> hd ?w \<noteq> CHR ''q''"
    using assms by (intro replace_all_hd) simp_all
  then have "\<not> prefix ''quot;'' ?w"
    by (cases ?w) auto
  then have "replace_all ''&quot;'' [CHR 0x22] (CHR ''&'' # ?w) =
               CHR ''&'' # replace_all ''&quot;'' [CHR 0x22] ?w"
    by simp
  then show ?thesis
    by (simp add: decode_entities_def replace_all_split del: replace_all.simps)
       (simp add: replace_all_split)
qed

lemma description_decoded:
  "querySelector ''description'' item = Some e \<Longrightarrow>
   description (make_ticket now item) = trim (decode_entities (textContent e))"
  by (simp add: make_ticket_def item_description_def js_or_def)

lemma comment_body_decoded: "body (parse_comment c) = trim (decode_entities (textContent c))"
  by (simp add: parse_comment_def js_or_def)

text \<open>
  Claim C5. The description and the comment bodies go through the four replacements and
  \<open>trim\<close> (the two lemmas above), and the occurrences of \<open>&lt;\<close>, \<open>&gt;\<close> and \<open>&quot;\<close> are
  decoded. \<open>&amp;\<close> is replaced before \<open>&quot;\<close>: in the text \<open>&amp;quot;\<close> the entity \<open>&amp;\<close>
  becomes \<open>&\<close>, which the next replacement reads as the start of \<open>&quot;\<close>. The field holds
  a double quote where decoding the entity gives \<open>&quot;\<close>.
\<close>

theorem amp_before_quot_is_decoded_twice:
  "elemText ''description'' amp_quot_item = Some ''&amp;quot;'' \<and>
   description (make_ticket clock amp_quot_item) = [CHR 0x22] \<and>
   map body (comments (make_ticket clock amp_quot_item)) = [[CHR 0x22]] \<and>
   decode_entities ''&amp;quot;'' = [CHR 0x22]"
  by (simp add: make_ticket_def item_description_def item_comments_def parse_comment_def
      elemText_def querySelector_def querySelectorAll_def amp_quot_item_def leaf_def
      js_or_def decode_entities_def trim_def is_js_space_def js_space_chars_def)

section \<open>The overlay and the run\<close>

lemma count_id_append: "count_id i (xs @ ys) = count_id i xs + count_id i ys"
  by (induction i xs rule: count_id.induct) simp_all

lemma getElementById_None_iff: "getElementById i ns = None \<longleftrightarrow> count_id i ns = 0"
  by (induction i ns rule: getElementById.induct) (auto split: option.splits)

lemma getElementById_has_id: "getElementById i ns = Some e \<Longrightarrow> 1 \<le> count_id i [e]"
  by (induction i ns rule: getElementById.induct) (auto split: option.splits if_splits)

lemma count_id_remove_element:
  "count_id i (remove_element i ns) +
     (case getElementById i ns of None \<Rightarrow> 0 | Some e \<Rightarrow> count_id i [e]) = count_id i ns"
  by (induction i ns rule: remove_element.induct)
     (auto split: option.splits simp: getElementById_None_iff [symmetric])

lemma count_id_remove_single:
  assumes "count_id i ns \<le> 1"
  shows "count_id i (remove_element i ns) = 0"
proof (cases "getElementById i ns")
  case None
  with count_id_remove_element [of i ns] assms show ?thesis
    by (simp add: getElementById_None_iff)
next
  case (Some e)
  with count_id_remove_element [of i ns] getElementById_has_id [OF Some] assms
  show ?thesis by simp
qed

lemma renderDashboard_of:
  assumes "dashboard_of tickets = Inr d"
  shows "snd (renderDashboard view tickets w) = None"
    and "page (fst (renderDashboard view tickets w)) = remove_element overlay_id (page w) @ view d"
  using assms
  by (auto simp: renderDashboard_def dashboard_of_def Let_def split: sum.splits)

lemma renderDashboard_v1_of:
  assumes "dashboard_of_v1 tickets error = Inr d"
  shows "page (fst (renderDashboard_v1 view tickets error w)) =
           remove_element overlay_id (page w) @ view d"
    and "count_id overlay_id (view d) \<noteq> 0 \<Longrightarrow> snd (renderDashboard_v1 view tickets error w) = None"
  using assms
  by (auto simp: renderDashboard_v1_def dashboard_of_v1_def Let_def getElementById_None_iff
      count_id_append split: sum.splits)

lemma renderDashboard_throws:
  assumes "dashboard_of tickets = Inl e"
  shows "snd (renderDashboard view tickets w) = Some e"
    and "page (fst (renderDashboard view tickets w)) = page w"
  using assms
  by (auto simp: renderDashboard_def dashboard_of_def Let_def split: sum.splits)

lemma renderDashboard_v1_throws:
  assumes "dashboard_of_v1 tickets error = Inl e"
  shows "snd (renderDashboard_v1 view tickets error w) = Some e"
    and "page (fst (renderDashboard_v1 view tickets error w)) = page w"
  using assms
  by (auto simp: renderDashboard_v1_def dashboard_of_v1_def Let_def split: sum.splits)

lemma replaced_overlay_count:
  assumes "count_id overlay_id ns = 1" and "count_id overlay_id p \<le> 1"
  shows "count_id overlay_id (remove_element overlay_id p @ ns) = 1"
  using assms by (simp add: count_id_append count_id_remove_single)

text \<open>
  Claim C8, as amended. \<open>getElementById\<close> finds one element and \<open>remove\<close> detaches that one
  (lemma \<open>count_id_remove_element\<close>). Take a page that holds at most one element with the
  overlay id, and two successive renders that reach the insertion, the markup inserted by
  each holding exactly one element with the id. Then neither render throws, and after the
  first and after the second exactly one element of the page carries the id. This holds
  for the refactored \<open>renderDashboard\<close> and for that of the first variant. (A render that
  throws before the insertion leaves the page as it was, lemmas \<open>renderDashboard_throws\<close>
  and \<open>renderDashboard_v1_throws\<close>.)
\<close>

theorem two_renders_leave_one_overlay:
  assumes page: "count_id overlay_id (page w) \<le> 1"
  shows "(dashboard_of ts1 = Inr d1 \<and> count_id overlay_id (view d1) = 1 \<and>
          dashboard_of ts2 = Inr d2 \<and> count_id overlay_id (view d2) = 1 \<longrightarrow>
            snd (renderDashboard view ts1 w) = None \<and>
            snd (renderDashboard view ts2 (fst (renderDashboard view ts1 w))) = None \<and>
            count_id overlay_id (page (fst (renderDashboard view ts1 w))) = 1 \<and>
            count_id overlay_id
              (page (fst (renderDashboard view ts2 (fst (renderDashboard view ts1 w))))) = 1) \<and>
         (dashboard_of_v1 ts1 e1 = Inr c1 \<and> count_id overlay_id (view c1) = 1 \<and>
          dashboard_of_v1 ts2 e2 = Inr c2 \<and> count_id overlay_id (view c2) = 1 \<longrightarrow>
            snd (renderDashboard_v1 view ts1 e1 w) = None \<and>
            snd (renderDashboard_v1 view ts2 e2 (fst (renderDashboard_v1 view ts1 e1 w))) = None \<and>
            count_id overlay_id (page (fst (renderDashboard_v1 view ts1 e1 w))) = 1 \<and>
            count_id overlay_id
              (page (fst (renderDashboard_v1 view ts2 e2
                 (fst (renderDashboard_v1 view ts1 e1 w))))) = 1)"
proof (intro conjI impI)
  assume r: "dashboard_of ts1 = Inr d1 \<and> count_id overlay_id (view d1) = 1 \<and>
          dashboard_of ts2 = Inr d2 \<and> count_id overlay_id (view d2) = 1"
  let ?w1 = "fst (renderDashboard view ts1 w)"
  from r show "snd (renderDashboard view ts1 w) = None"
    by (simp add: renderDashboard_of)
  from r show "snd (renderDashboard view ts2 ?w1) = None"
    by (simp add: renderDashboard_of)
  from r page show 1: "count_id overlay_id (page ?w1) = 1"
    by (simp add: renderDashboard_of replaced_overlay_count)
  from r 1 show "count_id overlay_id (page (fst (renderDashboard view ts2 ?w1))) = 1"
    by (simp add: renderDashboard_of replaced_overlay_count)
next
  assume r: "dashboard_of_v1 ts1 e1 = Inr c1 \<and> count_id overlay_id (view c1) = 1 \<and>
          dashboard_of_v1 ts2 e2 = Inr c2 \<and> count_id overlay_id (view c2) = 1"
  let ?v1 = "fst (renderDashboard_v1 view ts1 e1 w)"
  from r show "snd (renderDashboard_v1 view ts1 e1 w) = None"
    by (simp add: renderDashboard_v1_of)
  from r show "snd (renderDashboard_v1 view ts2 e2 ?v1) = None"
    by (simp add: renderDashboard_v1_of)
  from r page show 1: "count_id overlay_id (page ?v1) = 1"
    by (simp add: renderDashboard_v1_of replaced_overlay_count)
  from r 1 show "count_id overlay_id (page (fst (renderDashboard_v1 view ts2 e2 ?v1))) = 1"
    by (simp add: renderDashboard_v1_of replaced_overlay_count)
qed

lemma object_entries_Nil: "object_entries [] = []"
  by (simp add: object_entries_def)

lemma groupTicketsByAssignee_Nil: "groupTicketsByAssignee [] = Inr []"
  by (simp add: groupTicketsByAssignee_def)

lemma groupTicketsByAssignee_v1_Nil: "groupTicketsByAssignee_v1 [] = Inr []"
  by (simp add: groupTicketsByAssignee_v1_def)

lemma renderDashboard_Nil:
  "renderDashboard view [] w =
     (w\<lparr>currentData := Some empty_snapshot,
        page := remove_element overlay_id (page w) @ view empty_dashboard\<rparr>, None)"
  by (simp add: renderDashboard_def groupTicketsByAssignee_Nil Let_def empty_snapshot_def
      empty_dashboard_def object_entries_Nil)


lemma calculateStats_Nil: "calculateStats [] = render_stats [] []"
  by (simp add: calculateStats_def render_stats_def)

lemma renderDashboard_v1_Nil:
  "fst (renderDashboard_v1 view [] error w) =
     w\<lparr>currentData := Some empty_snapshot,
       page := remove_element overlay_id (page w) @ view (empty_dashboard\<lparr>d_error := error\<rparr>)\<rparr>"
  by (simp add: renderDashboard_v1_def groupTicketsByAssignee_v1_Nil Let_def empty_snapshot_def
      empty_dashboard_def calculateStats_Nil object_entries_Nil)

lemma renderDashboard_v1_Nil_ok:
  "count_id overlay_id (view (empty_dashboard\<lparr>d_error := error\<rparr>)) \<noteq> 0 \<Longrightarrow>
   snd (renderDashboard_v1 view [] error w) = None"
  by (simp add: renderDashboard_v1_def groupTicketsByAssignee_v1_Nil Let_def empty_snapshot_def
      empty_dashboard_def calculateStats_Nil getElementById_None_iff count_id_append
      object_entries_Nil)

lemma plain_view_count: "count_id overlay_id (plain_view d) = 1"
  by (simp add: plain_view_def)

lemma loading_popup_count: "count_id overlay_id [loading_popup] = 1"
  by (simp add: loading_popup_def)

lemma remove_loading_popup: "remove_element overlay_id (loading_popup # ns) = ns"
  by (simp add: loading_popup_def)

lemma card_view_count: "count_id overlay_id (card_view d) = 1"
proof -
  have "count_id overlay_id
          (map (\<lambda>c. Element ''div'' [(''class'', ''assignee-card'')] [Text (card_assignee c)]) cs) = 0"
    for cs :: "assignee_card list"
    by (induction cs) simp_all
  then show ?thesis
    by (simp add: card_view_def)
qed

lemma dashboard_of_Nil: "dashboard_of [] = Inr empty_dashboard"
  by (simp add: dashboard_of_def groupTicketsByAssignee_Nil object_entries_Nil empty_dashboard_def)

lemma dashboard_of_v1_Nil: "dashboard_of_v1 [] error = Inr (empty_dashboard\<lparr>d_error := error\<rparr>)"
  by (simp add: dashboard_of_v1_def groupTicketsByAssignee_v1_Nil object_entries_Nil
      empty_dashboard_def calculateStats_Nil)

lemma loose_task_kind: "\<not> is_story loose_task" "is_task loose_task"
  by (simp_all add: is_story_def is_task_def loose_task_def string_eval)

lemma alice_grouping:
  "groupTicketsByAssignee alice_tickets = Inr [(''Alice'', mixed_bucket)]"
  "groupTicketsByAssignee_v1 alice_tickets = Inr [(''Alice'', mixed_bucket\<lparr>raw := []\<rparr>)]"
proof -
  have a: "assignee_of story_ticket = ''Alice''" "assignee_of task_ticket = ''Alice''"
    "assignee_of loose_task = ''Alice''" "assignee story_ticket = ''Alice''"
    "assignee task_ticket = ''Alice''" "assignee loose_task = ''Alice''"
    by (simp_all add: assignee_of_def js_or_def story_ticket_def task_ticket_def loose_task_def)
  show "groupTicketsByAssignee alice_tickets = Inr [(''Alice'', mixed_bucket)]"
    by (simp add: groupTicketsByAssignee_eq alice_tickets_def a alice_not_inherited grouping_of_def
        keyed_def first_seen_def bucket_for_def mixed_bucket_def story_ticket_kind
        task_ticket_kind loose_task_kind)
  show "groupTicketsByAssignee_v1 alice_tickets = Inr [(''Alice'', mixed_bucket\<lparr>raw := []\<rparr>)]"
    by (simp add: groupTicketsByAssignee_v1_eq alice_tickets_def a alice_not_inherited
        grouping_of_v1_def keyed_def first_seen_def bucket_for_v1_def mixed_bucket_def
        story_ticket_kind task_ticket_kind loose_task_kind)
qed

lemma alice_entries: "object_entries [(''Alice'', b)] = [(''Alice'', b)]"
  by (simp add: object_entries_def is_array_index_def)

lemma render_card_raw: "render_card (a, b\<lparr>raw := r\<rparr>) = render_card (a, b)"
  by (simp add: render_card_def tasksByParent_def split: sum.splits)

lemma alice_stats:
  "render_stats alice_tickets [(''Alice'', mixed_bucket)] =
     \<lparr>totalTickets = 3, userStories' = 1, tasks' = 2, assignees = 1\<rparr>"
  "calculateStats alice_tickets =
     \<lparr>totalTickets = 3, userStories' = 1, tasks' = 2, assignees = 1\<rparr>"
proof -
  have a: "map assignee alice_tickets = [''Alice'', ''Alice'', ''Alice'']"
    by (simp add: alice_tickets_def story_ticket_def task_ticket_def loose_task_def)
  show "render_stats alice_tickets [(''Alice'', mixed_bucket)] =
     \<lparr>totalTickets = 3, userStories' = 1, tasks' = 2, assignees = 1\<rparr>"
    by (simp add: render_stats_def alice_tickets_def story_ticket_kind task_ticket_kind
        loose_task_kind)
  show "calculateStats alice_tickets =
     \<lparr>totalTickets = 3, userStories' = 1, tasks' = 2, assignees = 1\<rparr>"
    by (simp add: calculateStats_def a is_story_fun is_task_fun)
       (simp add: alice_tickets_def story_ticket_kind task_ticket_kind loose_task_kind)
qed

lemma dashboard_of_alice: "dashboard_of alice_tickets = Inr alice_dashboard"
  by (simp add: dashboard_of_def alice_grouping alice_entries render_card_mixed alice_stats
      alice_dashboard_def)

lemma dashboard_of_v1_alice: "dashboard_of_v1 alice_tickets None = Inr alice_dashboard"
  by (simp add: dashboard_of_v1_def alice_grouping alice_entries render_card_raw
      render_card_mixed alice_stats alice_dashboard_def)

theorem two_renders_leave_one_overlay_witness:
  "count_id overlay_id (page loading_world) = 1 \<and>
   dashboard_of alice_tickets = Inr alice_dashboard \<and>
   dashboard_of [] = Inr empty_dashboard \<and>
   count_id overlay_id (card_view alice_dashboard) = 1 \<and>
   count_id overlay_id (card_view empty_dashboard) = 1 \<and>
   page (fst (renderDashboard card_view alice_tickets loading_world)) =
     [Element ''div'' [(''id'', overlay_id)]
        [Element ''div'' [(''class'', ''assignee-card'')] [Text ''Alice'']]] \<and>
   page (fst (renderDashboard card_view []
      (fst (renderDashboard card_view alice_tickets loading_world)))) =
     [Element ''div'' [(''id'', overlay_id)] []] \<and>
   snd (renderDashboard card_view alice_tickets loading_world) = None \<and>
   snd (renderDashboard card_view []
      (fst (renderDashboard card_view alice_tickets loading_world))) = None \<and>
   count_id overlay_id (page (fst (renderDashboard card_view alice_tickets loading_world))) = 1 \<and>
   count_id overlay_id
     (page (fst (renderDashboard card_view []
        (fst (renderDashboard card_view alice_tickets loading_world))))) = 1 \<and>
   dashboard_of_v1 alice_tickets None = Inr alice_dashboard \<and>
   dashboard_of_v1 [] None = Inr empty_dashboard \<and>
   snd (renderDashboard_v1 card_view alice_tickets None loading_world) = None \<and>
   snd (renderDashboard_v1 card_view [] None
      (fst (renderDashboard_v1 card_view alice_tickets None loading_world))) = None \<and>
   count_id overlay_id
     (page (fst (renderDashboard_v1 card_view alice_tickets None loading_world))) = 1 \<and>
   count_id overlay_id
     (page (fst (renderDashboard_v1 card_view [] None
        (fst (renderDashboard_v1 card_view alice_tickets None loading_world))))) = 1"
proof -
  have p: "count_id overlay_id (page loading_world) \<le> 1" "count_id overlay_id (page loading_world) = 1"
    by (simp_all add: loading_world_def loading_popup_count)
  have d: "dashboard_of alice_tickets = Inr alice_dashboard" "dashboard_of [] = Inr empty_dashboard"
    "dashboard_of_v1 alice_tickets None = Inr alice_dashboard"
    "dashboard_of_v1 [] None = Inr empty_dashboard"
    by (simp_all add: dashboard_of_alice dashboard_of_Nil dashboard_of_v1_alice dashboard_of_v1_Nil
        empty_dashboard_def)
  have c: "count_id overlay_id (card_view alice_dashboard) = 1"
    "count_id overlay_id (card_view empty_dashboard) = 1"
    by (simp_all add: card_view_count)
  have g1: "page (fst (renderDashboard card_view alice_tickets loading_world)) =
     [Element ''div'' [(''id'', overlay_id)]
        [Element ''div'' [(''class'', ''assignee-card'')] [Text ''Alice'']]]"
    by (simp add: renderDashboard_of [OF d(1)] loading_world_def remove_loading_popup
        card_view_def alice_dashboard_def)
  have g2: "page (fst (renderDashboard card_view []
      (fst (renderDashboard card_view alice_tickets loading_world)))) =
     [Element ''div'' [(''id'', overlay_id)] []]"
    by (simp add: renderDashboard_of [OF d(2)] g1) (simp add: card_view_def empty_dashboard_def)
  from two_renders_leave_one_overlay [OF p(1), of alice_tickets alice_dashboard card_view "[]"
      empty_dashboard None alice_dashboard None empty_dashboard] p(2) d c g1 g2
  show ?thesis by simp
qed

text \<open>
  Claim C8 as stated fails on a page that already holds two elements with the overlay id,
  such as the page left by two calls of the first variant's loading step, which appends
  its popup without removing an existing one: each render removes the first of them only,
  and after two renders two elements carry the id.
\<close>

theorem second_overlay_survives_two_renders:
  "page (showLoading_v1 (showLoading_v1 empty_world)) = page twice_loading_world \<and>
   count_id overlay_id (page twice_loading_world) = 2 \<and>
   count_id overlay_id
     (page (fst (renderDashboard plain_view []
        (fst (renderDashboard plain_view [] twice_loading_world))))) = 2 \<and>
   count_id overlay_id
     (page (fst (renderDashboard_v1 plain_view [] None
        (fst (renderDashboard_v1 plain_view [] None twice_loading_world))))) = 2"
  by (simp add: renderDashboard_Nil renderDashboard_v1_Nil showLoading_v1_def empty_world_def
      twice_loading_world_def remove_loading_popup count_id_append loading_popup_count
      plain_view_count)
     (simp add: plain_view_def loading_popup_def)

lemma fetch_failure_iff:
  "fetchJiraData now outcome = Inl err \<longleftrightarrow>
     (\<exists>msg. outcome = Rejected msg \<and> err = NetworkError msg) \<or>
     (\<exists>st txt doc. outcome = Response st txt doc \<and> (st < 200 \<or> 299 < st) \<and> err = HttpError st txt)"
  by (cases outcome) (auto simp: fetchJiraData_def)

text \<open>
  Claim C7. A fetch fails when it is rejected, or when it answers with a status outside
  200-299; the error is then the rejection, or the HTTP error made of the status and its
  text (lemma \<open>fetch_failure_iff\<close>: these are the only failures). After such a failure
  the run has issued that one request and no other, has rendered the dashboard of the
  empty ticket list over the loading popup, and has logged the error. The refactored
  variant logs it once, after the render; the first variant logs it twice
  (\<open>'Fetch error:'\<close> in \<open>fetchJiraData\<close>, \<open>'Error:'\<close> in the handler) before the render,
  and passes the error message to the render.
\<close>

theorem failed_fetch_renders_empty_dashboard:
  assumes "(outcome = Rejected msg \<and> err = NetworkError msg) \<or>
           (outcome = Response st txt doc \<and> (st < 200 \<or> 299 < st) \<and> err = HttpError st txt)"
  shows "fetchJiraData now outcome = Inl err \<and>
         run view now outcome w =
           \<lparr>page = remove_element overlay_id (page (showLoading w)) @ view empty_dashboard,
            console = console w @ [([], err)],
            fetches = Suc (fetches w),
            currentData = Some empty_snapshot\<rparr> \<and>
         run_v1 view now outcome w =
           \<lparr>page = remove_element overlay_id (page (showLoading_v1 w)) @
                    view (empty_dashboard\<lparr>d_error := Some err\<rparr>),
            console = console w @ [(''Fetch error:'', err), (''Error:'', err)],
            fetches = Suc (fetches w),
            currentData = Some empty_snapshot\<rparr>"
proof (intro conjI)
  from assms show f: "fetchJiraData now outcome = Inl err"
    by (auto simp: fetchJiraData_def)
  show "run view now outcome w =
           \<lparr>page = remove_element overlay_id (page (showLoading w)) @ view empty_dashboard,
            console = console w @ [([], err)],
            fetches = Suc (fetches w),
            currentData = Some empty_snapshot\<rparr>"
    using f
    by (simp add: run_def Let_def on_rejected_def renderDashboard_Nil showLoading_def)
  show "run_v1 view now outcome w =
           \<lparr>page = remove_element overlay_id (page (showLoading_v1 w)) @
                    view (empty_dashboard\<lparr>d_error := Some err\<rparr>),
            console = console w @ [(''Fetch error:'', err), (''Error:'', err)],
            fetches = Suc (fetches w),
            currentData = Some empty_snapshot\<rparr>"
    using f
    by (simp add: run_v1_def Let_def on_rejected_v1_def renderDashboard_v1_Nil showLoading_v1_def)
qed

theorem failed_fetch_renders_empty_dashboard_witness:
  "run card_view clock (Response 404 ''Not Found'' (feed [keyed_item ''PROJ-1''])) loading_world =
     \<lparr>page = [Element ''div'' [(''id'', overlay_id)] []],
      console = [([], HttpError 404 ''Not Found'')],
      fetches = 1,
      currentData = Some empty_snapshot\<rparr> \<and>
   run_v1 card_view clock (Response 404 ''Not Found'' (feed [keyed_item ''PROJ-1''])) empty_world =
     \<lparr>page = [Element ''div'' [(''id'', overlay_id)] []],
      console = [(''Fetch error:'', HttpError 404 ''Not Found''),
                 (''Error:'', HttpError 404 ''Not Found'')],
      fetches = 1,
      currentData = Some empty_snapshot\<rparr> \<and>
   run card_view clock (Rejected ''Failed to fetch'') loading_world =
     \<lparr>page = [Element ''div'' [(''id'', overlay_id)] []],
      console = [([], NetworkError ''Failed to fetch'')],
      fetches = 1,
      currentData = Some empty_snapshot\<rparr> \<and>
   run_v1 card_view clock (Rejected ''Failed to fetch'') empty_world =
     \<lparr>page = [Element ''div'' [(''id'', overlay_id)] []],
      console = [(''Fetch error:'', NetworkError ''Failed to fetch''),
                 (''Error:'', NetworkError ''Failed to fetch'')],
      fetches = 1,
      currentData = Some empty_snapshot\<rparr> \<and>
   run card_view clock (Response 199 [] (feed [])) empty_world =
     \<lparr>page = [Element ''div'' [(''id'', overlay_id)] []],
      console = [([], HttpError 199 [])],
      fetches = 1,
      currentData = Some empty_snapshot\<rparr> \<and>
   run card_view clock (Response 300 [] (feed [])) empty_world =
     \<lparr>page = [Element ''div'' [(''id'', overlay_id)] []],
      console = [([], HttpError 300 [])],
      fetches = 1,
      currentData = Some empty_snapshot\<rparr>"
proof -
  have p: "remove_element overlay_id (page (showLoading empty_world)) = []"
          "remove_element overlay_id (page (showLoading loading_world)) = []"
          "remove_element overlay_id (page (showLoading_v1 empty_world)) = []"
    by (simp_all add: showLoading_def showLoading_v1_def empty_world_def loading_world_def
        remove_loading_popup)
  have v: "card_view (empty_dashboard\<lparr>d_error := e\<rparr>) = [Element ''div'' [(''id'', overlay_id)] []]"
          "card_view empty_dashboard = [Element ''div'' [(''id'', overlay_id)] []]" for e
    by (simp_all add: card_view_def empty_dashboard_def)
  have w: "console loading_world = []" "fetches loading_world = 0"
          "console empty_world = []" "fetches empty_world = 0"
    by (simp_all add: loading_world_def empty_world_def)
  from failed_fetch_renders_empty_dashboard
         [of "Response 404 ''Not Found'' (feed [keyed_item ''PROJ-1''])" _
            "HttpError 404 ''Not Found''" "404" "''Not Found''" "feed [keyed_item ''PROJ-1'']"
            clock card_view loading_world]
  have a: "run card_view clock (Response 404 ''Not Found'' (feed [keyed_item ''PROJ-1''])) loading_world =
     \<lparr>page = [Element ''div'' [(''id'', overlay_id)] []],
      console = [([], HttpError 404 ''Not Found'')],
      fetches = 1,
      currentData = Some empty_snapshot\<rparr>"
    by (simp add: p v w)
  from failed_fetch_renders_empty_dashboard
         [of "Response 404 ''Not Found'' (feed [keyed_item ''PROJ-1''])" _
            "HttpError 404 ''Not Found''" "404" "''Not Found''" "feed [keyed_item ''PROJ-1'']"
            clock card_view empty_world]
  have b: "run_v1 card_view clock (Response 404 ''Not Found'' (feed [keyed_item ''PROJ-1''])) empty_world =
     \<lparr>page = [Element ''div'' [(''id'', overlay_id)] []],
      console = [(''Fetch error:'', HttpError 404 ''Not Found''),
                 (''Error:'', HttpError 404 ''Not Found'')],
      fetches = 1,
      currentData = Some empty_snapshot\<rparr>"
    by (simp add: p v w)
  from failed_fetch_renders_empty_dashboard
         [of "Rejected ''Failed to fetch''" "''Failed to fetch''" "NetworkError ''Failed to fetch''"
            _ _ _ clock card_view loading_world]
  have c: "run card_view clock (Rejected ''Failed to fetch'') loading_world =
     \<lparr>page = [Element ''div'' [(''id'', overlay_id)] []],
      console = [([], NetworkError ''Failed to fetch'')],
      fetches = 1,
      currentData = Some empty_snapshot\<rparr>"
    by (simp add: p v w)
  from failed_fetch_renders_empty_dashboard
         [of "Rejected ''Failed to fetch''" "''Failed to fetch''" "NetworkError ''Failed to fetch''"
            _ _ _ clock card_view empty_world]
  have d: "run_v1 card_view clock (Rejected ''Failed to fetch'') empty_world =
     \<lparr>page = [Element ''div'' [(''id'', overlay_id)] []],
      console = [(''Fetch error:'', NetworkError ''Failed to fetch''),
                 (''Error:'', NetworkError ''Failed to fetch'')],
      fetches = 1,
      currentData = Some empty_snapshot\<rparr>"
    by (simp add: p v w)
  from failed_fetch_renders_empty_dashboard
         [of "Response 199 [] (feed [])" _ "HttpError 199 []" "199" "[]" "feed []" clock card_view
            empty_world]
  have e: "run card_view clock (Response 199 [] (feed [])) empty_world =
     \<lparr>page = [Element ''div'' [(''id'', overlay_id)] []],
      console = [([], HttpError 199 [])],
      fetches = 1,
      currentData = Some empty_snapshot\<rparr>"
    by (simp add: p v w)
  from failed_fetch_renders_empty_dashboard
         [of "Response 300 [] (feed [])" _ "HttpError 300 []" "300" "[]" "feed []" clock card_view
            empty_world]
  have f: "run card_view clock (Response 300 [] (feed [])) empty_world =
     \<lparr>page = [Element ''div'' [(''id'', overlay_id)] []],
      console = [([], HttpError 300 [])],
      fetches = 1,
      currentData = Some empty_snapshot\<rparr>"
    by (simp add: p v w)
  from a b c d e f show ?thesis
    by blast
qed

end
